theory Spec2Isabelle
  imports Main
begin

section \<open>Bytes, C strings and Python objects\<close>

text \<open>
  The parser of \<^verbatim>\<open>src/mys/parser/string_parser.c\<close> works on the bytes of one string
  token. A C buffer is a \<^typ>\<open>string\<close> (a list of bytes) and a pointer into it is an
  index. Reading at the length of the buffer yields the terminating NUL of the C string.
  A decoded Python text object is the list of its code points; a bytes object is a list
  of bytes.
\<close>

type_synonym unicode = "nat list"

definition byte_at :: "string \<Rightarrow> nat \<Rightarrow> char" where
  "byte_at buf i = (if i < length buf then buf ! i else CHR 0x00)"

definition slice :: "string \<Rightarrow> nat \<Rightarrow> nat \<Rightarrow> string" where
  "slice buf a b = take (b - a) (drop a buf)"

definition backslash :: char where
  "backslash = CHR 0x5C"

definition squote :: char where
  "squote = CHR 0x27"

definition dquote :: char where
  "dquote = CHR 0x22"

definition ascii :: "string \<Rightarrow> unicode" where
  "ascii s = map of_char s"

datatype pyobject = PyUnicode unicode | PyBytes string

text \<open>
  Every failing return of the source is a value. \<open>SyntaxError\<close> carries the message of
  \<^verbatim>\<open>RAISE_SYNTAX_ERROR\<close>, \<open>BadInternalCall\<close> is \<^verbatim>\<open>PyErr_BadInternalCall()\<close>,
  \<open>LibraryError\<close> is a failure whose exception was set inside a CPython routine
  (a decoder, the warning machinery, the inner parser), and \<open>NullWithoutException\<close> is a
  \<^verbatim>\<open>return NULL\<close> that sets no exception.
\<close>

datatype error =
    SyntaxError string
  | BadInternalCall
  | OverflowError string
  | LibraryError
  | NullWithoutException

datatype warn_outcome = WarnIssued | WarnDeprecationRaised | WarnOtherError

text \<open>
  What the file takes from its surroundings is collected in one record: the platform
  constants, the parser's feature version, the decoders of the CPython library, the
  outcome of \<^verbatim>\<open>PyErr_WarnExplicitObject\<close> and the expression parser run on the text of
  an embedded expression. Memory allocation is taken to succeed, and source locations
  (line and column fields of the nodes) are left out.
\<close>

record 'e pyenv =
  SIZE_MAX :: nat
  INT_MAX :: nat
  MAXLEVEL :: nat
  feature_version :: int
  PyUnicode_DecodeUTF8 :: "string \<Rightarrow> unicode option"
  PyUnicode_DecodeUnicodeEscape :: "string \<Rightarrow> unicode option"
  PyBytes_DecodeEscape :: "string \<Rightarrow> string option"
  PyErr_WarnExplicitObject :: "char \<Rightarrow> warn_outcome"
  run_parser :: "string \<Rightarrow> 'e option"

section \<open>String handling functions\<close>

text \<open>\<^verbatim>\<open>warn_invalid_escape_sequence\<close>: a deprecation warning that the warning filter
  raises becomes a syntax error.\<close>

definition warn_invalid_escape_sequence :: "'e pyenv \<Rightarrow> char \<Rightarrow> error + unit" where
  "warn_invalid_escape_sequence env first_invalid_escape_char =
     (case PyErr_WarnExplicitObject env first_invalid_escape_char of
        WarnIssued \<Rightarrow> Inr ()
      | WarnDeprecationRaised \<Rightarrow>
          Inl (SyntaxError (''invalid escape sequence '' @ [backslash, first_invalid_escape_char]))
      | WarnOtherError \<Rightarrow> Inl LibraryError)"

definition high_bit :: "char \<Rightarrow> bool" where
  "high_bit c = (128 \<le> (of_char c :: nat))"

definition hex_digit :: "nat \<Rightarrow> char" where
  "hex_digit n = ''0123456789abcdef'' ! (n mod 16)"

text \<open>\<^verbatim>\<open>sprintf(p, "\\U%08x", chr)\<close> for a 32-bit \<open>chr\<close>: ten bytes.\<close>

definition escape_U :: "nat \<Rightarrow> string" where
  "escape_U chr = backslash # CHR ''U'' #
     map (\<lambda>k. hex_digit (chr div 16 ^ k)) [7, 6, 5, 4, 3, 2, 1, 0]"

text \<open>
  The rewriting loop of \<^verbatim>\<open>decode_unicode_with_escapes\<close>, on the bytes still to read.
  \<^verbatim>\<open>decode_utf8\<close> takes the longest run of bytes with the high bit set and hands it to
  \<^verbatim>\<open>PyUnicode_DecodeUTF8\<close>.
\<close>

function escape_non_ascii :: "'e pyenv \<Rightarrow> string \<Rightarrow> error + string" where
  "escape_non_ascii env [] = Inr []"
| "escape_non_ascii env (c # cs) =
     (if c = backslash then
        (case cs of
           [] \<Rightarrow> Inr (c # ''u005c'')
         | d # ds \<Rightarrow>
             if high_bit d then
               (case PyUnicode_DecodeUTF8 env (takeWhile high_bit cs) of
                  None \<Rightarrow> Inl LibraryError
                | Some w \<Rightarrow>
                    (case escape_non_ascii env (dropWhile high_bit cs) of
                       Inl e \<Rightarrow> Inl e
                     | Inr out \<Rightarrow> Inr (c # ''u005c'' @ concat (map escape_U w) @ out)))
             else
               (case escape_non_ascii env ds of
                  Inl e \<Rightarrow> Inl e
                | Inr out \<Rightarrow> Inr (c # d # out)))
      else if high_bit c then
        (case PyUnicode_DecodeUTF8 env (takeWhile high_bit (c # cs)) of
           None \<Rightarrow> Inl LibraryError
         | Some w \<Rightarrow>
             (case escape_non_ascii env (dropWhile high_bit (c # cs)) of
                Inl e \<Rightarrow> Inl e
              | Inr out \<Rightarrow> Inr (concat (map escape_U w) @ out)))
      else
        (case escape_non_ascii env cs of
           Inl e \<Rightarrow> Inl e
         | Inr out \<Rightarrow> Inr (c # out)))"
  by pat_completeness auto
termination
proof (relation "measure (\<lambda>(env, s). length s)")
  show "wf (measure (\<lambda>(env :: 'e pyenv, s :: string). length s))"
    by simp
next
  fix env :: "'e pyenv" and c :: char and cs :: string and d ds w
  assume "cs = d # ds"
  have "length (dropWhile high_bit cs) \<le> length cs"
    by (rule length_dropWhile_le)
  then show "((env, dropWhile high_bit cs), (env, c # cs)) \<in> measure (\<lambda>(env, s). length s)"
    by simp
next
  fix env :: "'e pyenv" and c :: char and cs :: string and d ds
  assume "cs = d # ds"
  then show "((env, ds), (env, c # cs)) \<in> measure (\<lambda>(env, s). length s)"
    by simp
next
  fix env :: "'e pyenv" and c :: char and cs :: string and w
  assume "high_bit c"
  then have "dropWhile high_bit (c # cs) = dropWhile high_bit cs"
    by simp
  moreover have "length (dropWhile high_bit cs) \<le> length cs"
    by (rule length_dropWhile_le)
  ultimately show "((env, dropWhile high_bit (c # cs)), (env, c # cs)) \<in> measure (\<lambda>(env, s). length s)"
    by simp
next
  fix env :: "'e pyenv" and c :: char and cs :: string
  show "((env, cs), (env, c # cs)) \<in> measure (\<lambda>(env, s). length s)"
    by simp
qed

text \<open>
  \<^verbatim>\<open>decode_unicode_with_escapes\<close>. The overflow check returns \<^verbatim>\<open>NULL\<close> and raises
  nothing.
\<close>

definition decode_unicode_with_escapes :: "'e pyenv \<Rightarrow> string \<Rightarrow> error + unicode" where
  "decode_unicode_with_escapes env s =
     (if length s > SIZE_MAX env div 6 then Inl NullWithoutException
      else
        (case escape_non_ascii env s of
           Inl e \<Rightarrow> Inl e
         | Inr buf \<Rightarrow>
             (case PyUnicode_DecodeUnicodeEscape env buf of
                None \<Rightarrow> Inl LibraryError
              | Some v \<Rightarrow> Inr v)))"

definition decode_bytes_with_escapes :: "'e pyenv \<Rightarrow> string \<Rightarrow> error + string" where
  "decode_bytes_with_escapes env s =
     (case PyBytes_DecodeEscape env s of None \<Rightarrow> Inl LibraryError | Some v \<Rightarrow> Inr v)"

section \<open>The literal scanner\<close>

text \<open>
  \<^verbatim>\<open>fstring_find_literal\<close> scans \<open>buf\<close> from the cursor \<open>s\<close> up to \<open>end\<close>. One
  iteration of its \<^verbatim>\<open>while (s < end)\<close> loop either goes on at a later index, leaves
  the loop with \<open>s\<close> at the end of the literal (\<^verbatim>\<open>break\<close>), finds a doubled brace
  (\<^verbatim>\<open>goto done\<close> with \<open>s\<close> after the first brace), or fails.
\<close>

datatype lit_step = LitContinue nat | LitBreak nat | LitDoubled nat | LitFail error

text \<open>\<^verbatim>\<open>while (s < end && *s++ != '}') { }\<close>, the body of a \<^verbatim>\<open>\N{...}\<close> escape.\<close>

function skip_name :: "string \<Rightarrow> nat \<Rightarrow> nat \<Rightarrow> nat" where
  "skip_name buf end s =
     (if s < end then (if byte_at buf s \<noteq> CHR ''}'' then skip_name buf end (s + 1) else s + 1)
      else s)"
  by pat_completeness auto
termination
  by (relation "measure (\<lambda>(buf, end, s). end - s)") auto

declare skip_name.simps [simp del]

text \<open>The test \<^verbatim>\<open>if (ch == '{' || ch == '}')\<close> with \<open>s\<close> already past \<open>ch\<close>.\<close>

definition brace_check :: "nat \<Rightarrow> string \<Rightarrow> nat \<Rightarrow> char \<Rightarrow> nat \<Rightarrow> lit_step" where
  "brace_check recurse_lvl buf end ch s =
     (if ch = CHR ''{'' \<or> ch = CHR ''}'' then
        (if recurse_lvl = 0 then
           (if s < end \<and> byte_at buf s = ch then LitDoubled s
            else if ch = CHR ''}'' then LitFail (SyntaxError ''f-string: single '}' is not allowed'')
            else LitBreak (s - 1))
         else LitBreak (s - 1))
      else LitContinue s)"

definition find_literal_step :: "'e pyenv \<Rightarrow> bool \<Rightarrow> nat \<Rightarrow> string \<Rightarrow> nat \<Rightarrow> nat \<Rightarrow> lit_step" where
  "find_literal_step env raw recurse_lvl buf end s0 =
     (let ch = byte_at buf s0; s = s0 + 1 in
      if \<not> raw \<and> ch = backslash \<and> s < end then
        (let ch = byte_at buf s; s = s + 1 in
         if ch = CHR ''N'' then
           (if s < end then
              (if byte_at buf s = CHR ''{'' then LitContinue (skip_name buf end (s + 1))
               else LitBreak (s + 1))
            else LitBreak s)
         else if ch = CHR ''{'' then
           (case warn_invalid_escape_sequence env ch of
              Inl e \<Rightarrow> LitFail e
            | Inr _ \<Rightarrow> brace_check recurse_lvl buf end ch s)
         else brace_check recurse_lvl buf end ch s)
      else brace_check recurse_lvl buf end ch s)"

lemma skip_name_ge: "s \<le> skip_name buf end s"
proof (induction buf "end" s rule: skip_name.induct)
  case (1 buf "end" s)
  show ?case
  proof (cases "s < end \<and> byte_at buf s \<noteq> CHR ''}''")
    case True
    with "1.IH" have "s + 1 \<le> skip_name buf end (s + 1)" by simp
    with True show ?thesis by (subst skip_name.simps) simp
  next
    case False
    then show ?thesis by (subst skip_name.simps) auto
  qed
qed

lemma brace_check_progress: "brace_check lvl buf end ch s = LitContinue s' \<Longrightarrow> s' = s"
  by (auto simp: brace_check_def split: if_splits)

lemma find_literal_step_progress:
  assumes "find_literal_step env raw lvl buf end s = LitContinue s'"
  shows "s < s'"
proof -
  have "s + 3 \<le> skip_name buf end (s + 1 + 1 + 1)"
    using skip_name_ge [of "s + 1 + 1 + 1" buf "end"] by simp
  with assms show ?thesis
    by (auto simp: find_literal_step_def Let_def split: if_splits sum.splits
             dest!: brace_check_progress)
qed

text \<open>The loop: the result is the status, the end of the literal \<open>s\<close> and the new
  cursor \<^verbatim>\<open>*str\<close>.\<close>

function find_literal_loop ::
  "'e pyenv \<Rightarrow> bool \<Rightarrow> nat \<Rightarrow> string \<Rightarrow> nat \<Rightarrow> nat \<Rightarrow> error + (int \<times> nat \<times> nat)" where
  "find_literal_loop env raw recurse_lvl buf end s =
     (if s < end then
        (case find_literal_step env raw recurse_lvl buf end s of
           LitContinue s' \<Rightarrow> find_literal_loop env raw recurse_lvl buf end s'
         | LitBreak s' \<Rightarrow> Inr (0, s', s')
         | LitDoubled s' \<Rightarrow> Inr (1, s', s' + 1)
         | LitFail e \<Rightarrow> Inl e)
      else Inr (0, s, s))"
  by pat_completeness auto
termination
proof (relation "measure (\<lambda>(env, raw, lvl, buf, end, s). end - s)")
  show "wf (measure (\<lambda>(env :: 'e pyenv, raw :: bool, lvl :: nat, buf :: string, end :: nat, s :: nat). end - s))"
    by simp
next
  fix env :: "'e pyenv" and raw recurse_lvl buf "end" s s'
  assume "s < end" and "find_literal_step env raw recurse_lvl buf end s = LitContinue s'"
  then show "((env, raw, recurse_lvl, buf, end, s'), (env, raw, recurse_lvl, buf, end, s))
      \<in> measure (\<lambda>(env, raw, lvl, buf, end, s). end - s)"
    using find_literal_step_progress [of env raw recurse_lvl buf "end" s s'] by simp
qed

declare find_literal_loop.simps [simp del]

text \<open>The decoding at the label \<^verbatim>\<open>done\<close>: UTF-8 only in raw mode, escapes otherwise.\<close>

definition decode_literal :: "'e pyenv \<Rightarrow> bool \<Rightarrow> string \<Rightarrow> error + unicode" where
  "decode_literal env raw bytes =
     (if raw then
        (case PyUnicode_DecodeUTF8 env bytes of
           None \<Rightarrow> Inl LibraryError
         | Some literal \<Rightarrow> Inr literal)
      else decode_unicode_with_escapes env bytes)"

text \<open>
  \<^verbatim>\<open>fstring_find_literal\<close>: the bytes from the start of the scan to \<open>s\<close>, if there are
  any, are decoded; the result is the status, the literal and the new cursor.
\<close>

definition fstring_find_literal ::
  "'e pyenv \<Rightarrow> string \<Rightarrow> nat \<Rightarrow> nat \<Rightarrow> bool \<Rightarrow> nat \<Rightarrow> error + (int \<times> unicode option \<times> nat)" where
  "fstring_find_literal env buf str end raw recurse_lvl =
     (case find_literal_loop env raw recurse_lvl buf end str of
        Inl e \<Rightarrow> Inl e
      | Inr (result, s, str') \<Rightarrow>
          if str \<noteq> s then
            (case decode_literal env raw (slice buf str s) of
               Inl e \<Rightarrow> Inl e
             | Inr literal \<Rightarrow> Inr (result, Some literal, str'))
          else Inr (result, None, str'))"

section \<open>The expression scanner\<close>

text \<open>
  The state of the \<^verbatim>\<open>for\<close> loop of \<^verbatim>\<open>fstring_find_expr\<close>: the quote character of the
  string being skipped (NUL outside strings), its type (1 or 3), and the stack of open
  brackets, whose height is \<^verbatim>\<open>nested_depth\<close> and whose head is
  \<^verbatim>\<open>parenstack[nested_depth - 1]\<close>.
\<close>

record scan_state =
  quote_char :: char
  string_type :: nat
  parenstack :: "char list"

definition scan_init :: scan_state where
  "scan_init = \<lparr>quote_char = CHR 0x00, string_type = 0, parenstack = []\<rparr>"

datatype expr_step = ExprNext nat scan_state | ExprBreak | ExprFail error

text \<open>One iteration at index \<open>i < end\<close>. \<open>ExprNext\<close> carries the cursor after the
  increment of the \<^verbatim>\<open>for\<close> statement; \<open>ExprBreak\<close> leaves the loop with the cursor on
  \<open>i\<close>.\<close>

definition find_expr_step :: "'e pyenv \<Rightarrow> string \<Rightarrow> nat \<Rightarrow> nat \<Rightarrow> scan_state \<Rightarrow> expr_step" where
  "find_expr_step env buf end i st =
     (let ch = byte_at buf i in
      if ch = backslash then
        ExprFail (SyntaxError ''f-string expression part cannot include a backslash'')
      else if quote_char st \<noteq> CHR 0x00 then
        (if ch = quote_char st then
           (if string_type st = 3 then
              (if i + 2 < end \<and> byte_at buf (i + 1) = ch \<and> byte_at buf (i + 2) = ch then
                 ExprNext (i + 3) (st\<lparr>string_type := 0, quote_char := CHR 0x00\<rparr>)
               else ExprNext (i + 1) st)
            else ExprNext (i + 1) (st\<lparr>quote_char := CHR 0x00, string_type := 0\<rparr>))
         else ExprNext (i + 1) st)
      else if ch = squote \<or> ch = dquote then
        (if i + 2 < end \<and> byte_at buf (i + 1) = ch \<and> byte_at buf (i + 2) = ch then
           ExprNext (i + 3) (st\<lparr>string_type := 3, quote_char := ch\<rparr>)
         else ExprNext (i + 1) (st\<lparr>string_type := 1, quote_char := ch\<rparr>))
      else if ch = CHR ''['' \<or> ch = CHR ''{'' \<or> ch = CHR ''('' then
        (if MAXLEVEL env \<le> length (parenstack st) then
           ExprFail (SyntaxError ''f-string: too many nested parenthesis'')
         else ExprNext (i + 1) (st\<lparr>parenstack := ch # parenstack st\<rparr>))
      else if ch = CHR ''#'' then
        ExprFail (SyntaxError (''f-string expression part cannot include '' @ [squote, CHR ''#'', squote]))
      else if parenstack st = [] \<and>
              (ch = CHR ''!'' \<or> ch = CHR '':'' \<or> ch = CHR ''}'' \<or>
               ch = CHR ''='' \<or> ch = CHR ''>'' \<or> ch = CHR ''<'') then
        (if i + 1 < end then
           (let next = byte_at buf (i + 1) in
            if (ch = CHR ''!'' \<and> next = CHR ''='') \<or>
               (ch = CHR ''='' \<and> next = CHR ''='') \<or>
               (ch = CHR ''<'' \<and> next = CHR ''='') \<or>
               (ch = CHR ''>'' \<and> next = CHR ''='') then ExprNext (i + 2) st
            else if ch = CHR ''>'' \<or> ch = CHR ''<'' then ExprNext (i + 1) st
            else ExprBreak)
         else ExprBreak)
      else if ch = CHR '']'' \<or> ch = CHR ''}'' \<or> ch = CHR '')'' then
        (case parenstack st of
           [] \<Rightarrow> ExprFail (SyntaxError (''f-string: unmatched '' @ [squote, ch, squote]))
         | opening # below \<Rightarrow>
             if (opening = CHR ''('' \<and> ch = CHR '')'') \<or>
                (opening = CHR ''['' \<and> ch = CHR '']'') \<or>
                (opening = CHR ''{'' \<and> ch = CHR ''}'') then
               ExprNext (i + 1) (st\<lparr>parenstack := below\<rparr>)
             else
               ExprFail (SyntaxError (''f-string: closing parenthesis '' @ [squote, ch, squote] @
                 '' does not match opening parenthesis '' @ [squote, opening, squote])))
      else ExprNext (i + 1) st)"

lemma find_expr_step_progress: "find_expr_step env buf end i st = ExprNext i' st' \<Longrightarrow> i < i'"
  by (auto simp: find_expr_step_def Let_def split: if_splits list.splits)

text \<open>The loop returns the cursor it stopped on (\<^verbatim>\<open>expr_end\<close>) and the final state.\<close>

function find_expr_loop ::
  "'e pyenv \<Rightarrow> string \<Rightarrow> nat \<Rightarrow> nat \<Rightarrow> scan_state \<Rightarrow> error + (nat \<times> scan_state)" where
  "find_expr_loop env buf end i st =
     (if i < end then
        (case find_expr_step env buf end i st of
           ExprNext i' st' \<Rightarrow> find_expr_loop env buf end i' st'
         | ExprBreak \<Rightarrow> Inr (i, st)
         | ExprFail e \<Rightarrow> Inl e)
      else Inr (i, st))"
  by pat_completeness auto
termination
proof (relation "measure (\<lambda>(env, buf, end, i, st). end - i)")
  show "wf (measure (\<lambda>(env :: 'e pyenv, buf :: string, end :: nat, i :: nat, st :: scan_state). end - i))"
    by simp
next
  fix env :: "'e pyenv" and buf "end" i st i' st'
  assume "i < end" and "find_expr_step env buf end i st = ExprNext i' st'"
  then show "((env, buf, end, i', st'), (env, buf, end, i, st))
      \<in> measure (\<lambda>(env, buf, end, i, st). end - i)"
    using find_expr_step_progress [of env buf "end" i st i' st'] by simp
qed

declare find_expr_loop.simps [simp del]

section \<open>The expression compiler\<close>

text \<open>
  The nodes of the syntax tree that this file builds; \<open>Expr\<close> holds what the inner
  parser returns for an embedded expression. A conversion is \<open>-1\<close> or a character code.
\<close>

datatype 'e expr_ty =
    Expr 'e
  | Constant unicode "string option"
  | FormattedValue "'e expr_ty" int "'e expr_ty option"
  | JoinedStr "'e expr_ty list"

text \<open>
  \<^verbatim>\<open>fstring_compile_expr\<close> on the bytes between \<^verbatim>\<open>expr_start\<close> and \<^verbatim>\<open>expr_end\<close>: the
  first loop skips blanks, and an expression of blanks only is an error. Otherwise the
  text goes to the inner parser between parentheses.
\<close>

definition expr_blank :: "char \<Rightarrow> bool" where
  "expr_blank c = (c = CHR '' '' \<or> c = CHR 0x09 \<or> c = CHR 0x0A \<or> c = CHR 0x0C)"

definition fstring_compile_expr :: "'e pyenv \<Rightarrow> string \<Rightarrow> error + 'e expr_ty" where
  "fstring_compile_expr env expr =
     (if dropWhile expr_blank expr = [] then
        Inl (SyntaxError ''f-string: empty expression not allowed'')
      else
        (case run_parser env (CHR ''('' # expr @ [CHR '')'']) of
           None \<Rightarrow> Inl LibraryError
         | Some e \<Rightarrow> Inr (Expr e)))"

section \<open>Finding one expression\<close>

definition Py_ISSPACE :: "char \<Rightarrow> bool" where
  "Py_ISSPACE c = (c = CHR '' '' \<or> (9 \<le> (of_char c :: nat) \<and> (of_char c :: nat) \<le> 13))"

text \<open>\<^verbatim>\<open>while (Py_ISSPACE(**str)) *str += 1;\<close> stops at the latest on the NUL that
  ends the buffer.\<close>

function skip_space :: "string \<Rightarrow> nat \<Rightarrow> nat" where
  "skip_space buf i = (if i < length buf \<and> Py_ISSPACE (byte_at buf i) then skip_space buf (i + 1) else i)"
  by pat_completeness auto
termination
  by (relation "measure (\<lambda>(buf, i). length buf - i)") auto

declare skip_space.simps [simp del]

definition expecting_brace :: error where
  "expecting_brace = SyntaxError (''f-string: expecting '' @ [squote, CHR ''}'', squote])"

text \<open>
  The part of \<^verbatim>\<open>fstring_find_expr\<close> after the expression has been compiled: the
  \<^verbatim>\<open>=\<close> of a self-documenting expression, the conversion, the format specification
  (parsed by \<open>parse\<close>, which stands for the recursive call of \<^verbatim>\<open>fstring_parse\<close> at the
  next level and may not return), and the closing brace. A result is the text of the
  expression, the node and the cursor.
\<close>

definition find_expr_close ::
  "string \<Rightarrow> nat \<Rightarrow> nat \<Rightarrow> unicode option \<Rightarrow> 'e expr_ty \<Rightarrow> int \<Rightarrow> 'e expr_ty option \<Rightarrow>
   error + (unicode option \<times> 'e expr_ty \<times> nat)" where
  "find_expr_close buf str end expr_text simple_expression conversion format_spec =
     (if end \<le> str \<or> byte_at buf str \<noteq> CHR ''}'' then Inl expecting_brace
      else
        (let conversion' =
               (if expr_text \<noteq> None \<and> format_spec = None \<and> conversion = -1
                then of_char (CHR ''r'') else conversion)
         in Inr (expr_text, FormattedValue simple_expression conversion' format_spec, str + 1)))"

definition find_expr_spec ::
  "(nat \<Rightarrow> nat \<Rightarrow> (error + ('e expr_ty \<times> nat)) option) \<Rightarrow> string \<Rightarrow> nat \<Rightarrow> nat \<Rightarrow> nat \<Rightarrow>
   unicode option \<Rightarrow> 'e expr_ty \<Rightarrow> int \<Rightarrow> (error + (unicode option \<times> 'e expr_ty \<times> nat)) option" where
  "find_expr_spec parse buf str end recurse_lvl expr_text simple_expression conversion =
     (if end \<le> str then Some (Inl expecting_brace)
      else if byte_at buf str = CHR '':'' then
        (if end \<le> str + 1 then Some (Inl expecting_brace)
         else
           (case parse (recurse_lvl + 1) (str + 1) of
              None \<Rightarrow> None
            | Some (Inl e) \<Rightarrow> Some (Inl e)
            | Some (Inr (format_spec, str')) \<Rightarrow>
                Some (find_expr_close buf str' end expr_text simple_expression conversion
                        (Some format_spec))))
      else Some (find_expr_close buf str end expr_text simple_expression conversion None))"

definition find_expr_conversion ::
  "(nat \<Rightarrow> nat \<Rightarrow> (error + ('e expr_ty \<times> nat)) option) \<Rightarrow> string \<Rightarrow> nat \<Rightarrow> nat \<Rightarrow> nat \<Rightarrow>
   unicode option \<Rightarrow> 'e expr_ty \<Rightarrow> (error + (unicode option \<times> 'e expr_ty \<times> nat)) option" where
  "find_expr_conversion parse buf str end recurse_lvl expr_text simple_expression =
     (if byte_at buf str = CHR ''!'' then
        (if end \<le> str + 1 then Some (Inl expecting_brace)
         else
           (let conversion = byte_at buf (str + 1) in
            if \<not> (conversion = CHR ''s'' \<or> conversion = CHR ''r'' \<or> conversion = CHR ''a'') then
              Some (Inl (SyntaxError (''f-string: invalid conversion character: expected '' @
                [squote, CHR ''s'', squote] @ '', '' @ [squote, CHR ''r'', squote] @ '', or '' @
                [squote, CHR ''a'', squote])))
            else find_expr_spec parse buf (str + 2) end recurse_lvl expr_text simple_expression
                   (of_char conversion)))
      else find_expr_spec parse buf str end recurse_lvl expr_text simple_expression (-1))"

definition fstring_find_expr ::
  "(nat \<Rightarrow> nat \<Rightarrow> (error + ('e expr_ty \<times> nat)) option) \<Rightarrow> 'e pyenv \<Rightarrow> string \<Rightarrow> nat \<Rightarrow> nat \<Rightarrow>
   nat \<Rightarrow> (error + (unicode option \<times> 'e expr_ty \<times> nat)) option" where
  "fstring_find_expr parse env buf str end recurse_lvl =
     (if 2 \<le> recurse_lvl then Some (Inl (SyntaxError ''f-string: expressions nested too deeply''))
      else
        (let expr_start = str + 1 in
         case find_expr_loop env buf end expr_start scan_init of
           Inl e \<Rightarrow> Some (Inl e)
         | Inr (expr_end, st) \<Rightarrow>
             if quote_char st \<noteq> CHR 0x00 then
               Some (Inl (SyntaxError ''f-string: unterminated string''))
             else
               (case parenstack st of
                  opening # below \<Rightarrow>
                    Some (Inl (SyntaxError (''f-string: unmatched '' @ [squote, opening, squote])))
                | [] \<Rightarrow>
                    if end \<le> expr_end then Some (Inl expecting_brace)
                    else
                      (case fstring_compile_expr env (slice buf expr_start expr_end) of
                         Inl e \<Rightarrow> Some (Inl e)
                       | Inr simple_expression \<Rightarrow>
                           if byte_at buf expr_end = CHR ''='' then
                             (if feature_version env < 8 then
                                Some (Inl (SyntaxError (''f-string: self documenting expressions are '' @
                                  ''only supported in Python 3.8 and greater'')))
                              else
                                (let str' = skip_space buf (expr_end + 1) in
                                 case PyUnicode_DecodeUTF8 env (slice buf expr_start str') of
                                   None \<Rightarrow> Some (Inl LibraryError)
                                 | Some expr_text \<Rightarrow>
                                     find_expr_conversion parse buf str' end recurse_lvl
                                       (Some expr_text) simple_expression))
                           else
                             find_expr_conversion parse buf expr_end end recurse_lvl None
                               simple_expression))))"

section \<open>The f-string assembler\<close>


record 'e FstringParser =
  last_str :: "unicode option"
  fmode :: bool
  expr_list :: "'e expr_ty list"

definition FstringParser_Init :: "'e FstringParser" where
  "FstringParser_Init = \<lparr>last_str = None, fmode = False, expr_list = []\<rparr>"

text \<open>\<^verbatim>\<open>make_str_node_and_del\<close>: the kind is \<open>u\<close> when the first byte of the first
  token is a lower-case \<open>u\<close>.\<close>

definition make_str_node_and_del :: "string \<Rightarrow> unicode \<Rightarrow> 'e expr_ty" where
  "make_str_node_and_del first_token s =
     Constant s (if byte_at first_token 0 = CHR ''u'' then Some ''u'' else None)"



text \<open>The pending literal becomes a \<open>Constant\<close> at the end of the expression list.\<close>

definition flush_last_str :: "string \<Rightarrow> 'e FstringParser \<Rightarrow> 'e FstringParser" where
  "flush_last_str first_token state =
     (case last_str state of
        None \<Rightarrow> state
      | Some l \<Rightarrow>
          state\<lparr>last_str := None,
                expr_list := expr_list state @ [make_str_node_and_del first_token l]\<rparr>)"




text \<open>\<^verbatim>\<open>_Mys_PyPegen_FstringParser_Finish\<close>: a plain \<open>Constant\<close> only when no f-string
  was added to the state.\<close>

definition FstringParser_Finish :: "'e FstringParser \<Rightarrow> string \<Rightarrow> 'e expr_ty" where
  "FstringParser_Finish state first_token =
     (if \<not> fmode state then
        make_str_node_and_del first_token (case last_str state of None \<Rightarrow> [] | Some l \<Rightarrow> l)
      else JoinedStr (expr_list (flush_last_str first_token state)))"




section \<open>The entry point\<close>

text \<open>
  \<^verbatim>\<open>_Mys_PyPegen_parsestr\<close> reads the C string of the token: its bytes up to the first
  NUL. The prefix loop runs on the bytes still to read; \<open>quote\<close> is the first of them,
  or NUL at the end of the string.
\<close>

record prefix_flags =
  p_bytesmode :: bool
  p_rawmode :: bool
  p_remode :: bool
  p_cmode :: bool
  p_fmode :: bool

definition no_prefix :: prefix_flags where
  "no_prefix = \<lparr>p_bytesmode = False, p_rawmode = False, p_remode = False, p_cmode = False,
                 p_fmode = False\<rparr>"

definition Py_ISALPHA :: "char \<Rightarrow> bool" where
  "Py_ISALPHA c = ((65 \<le> (of_char c :: nat) \<and> (of_char c :: nat) \<le> 90) \<or>
                   (97 \<le> (of_char c :: nat) \<and> (of_char c :: nat) \<le> 122))"

fun prefix_loop :: "prefix_flags \<Rightarrow> string \<Rightarrow> prefix_flags \<times> string" where
  "prefix_loop fl [] = (fl, [])"
| "prefix_loop fl (quote # s) =
     (if \<not> p_bytesmode fl \<or> \<not> p_rawmode fl \<or> \<not> p_remode fl \<or> \<not> p_cmode fl then
        (if quote = CHR ''b'' \<or> quote = CHR ''B'' then prefix_loop (fl\<lparr>p_bytesmode := True\<rparr>) s
         else if quote = CHR ''u'' \<or> quote = CHR ''U'' then prefix_loop fl s
         else if quote = CHR ''r'' \<or> quote = CHR ''R'' then
           (case s of
              [] \<Rightarrow> prefix_loop (fl\<lparr>p_rawmode := True\<rparr>) s
            | quote' # s' \<Rightarrow>
                if quote' = CHR ''e'' \<or> quote' = CHR ''E'' then
                  prefix_loop (fl\<lparr>p_rawmode := True, p_remode := True\<rparr>) s'
                else prefix_loop (fl\<lparr>p_rawmode := True\<rparr>) s)
         else if quote = CHR ''f'' \<or> quote = CHR ''F'' then prefix_loop (fl\<lparr>p_fmode := True\<rparr>) s
         else if quote = CHR ''c'' \<or> quote = CHR ''C'' then
           prefix_loop (fl\<lparr>p_rawmode := True, p_cmode := True\<rparr>) s
         else (fl, quote # s))
      else (fl, quote # s))"

record parsestr_result =
  bytesmode :: bool
  rawmode :: bool
  remode :: bool
  cmode :: bool
  is_char :: bool
  result :: "pyobject option"
  fstr :: "(string \<times> int) option"
  reflags :: "unicode option"

text \<open>
  The first half of \<^verbatim>\<open>_Mys_PyPegen_parsestr\<close>, up to the test of \<^verbatim>\<open>fmode\<close>.
  \<open>parsestr_quotes\<close> starts after the leading quote has been skipped: \<open>s\<close> is the rest
  of the C string, body and closing quotes (and the flags of a regular expression). It
  returns the start of the body, the length of the body and the flags. The length is a
  \<^verbatim>\<open>size_t\<close>: when nothing follows the leading quote, or the flags take all of it, the
  decrement in \<^verbatim>\<open>s[--len]\<close> wraps around to \<^verbatim>\<open>SIZE_MAX\<close> and the byte read is the one
  before \<open>s\<close>, which is the leading quote itself, so that the test passes. On such a
  string \<^verbatim>\<open>s[0]\<close> is not the quote and the test for a triple quote fails.
\<close>

definition parsestr_quotes ::
  "'e pyenv \<Rightarrow> prefix_flags \<Rightarrow> bool \<Rightarrow> char \<Rightarrow> string \<Rightarrow> error + (string \<times> nat \<times> unicode option)" where
  "parsestr_quotes env fl ischar quote s =
     (let len = length s in
      if INT_MAX env < len then Inl (OverflowError ''string to parse is too long'')
      else
        (let flagslen = (if p_remode fl then length (takeWhile (\<lambda>c. c \<noteq> quote) (rev s)) else 0);
             len = len - flagslen;
             flags = (if p_remode fl then PyUnicode_DecodeUTF8 env (drop len s) else None);
             last = (if len = 0 then quote else byte_at s (len - 1));
             len = (if len = 0 then SIZE_MAX env else len - 1)
         in
         if last \<noteq> quote then Inl BadInternalCall
         else if 4 \<le> len \<and> byte_at s 0 = quote \<and> byte_at s 1 = quote then
           (if ischar then Inl (SyntaxError ''characters cannot be triple quoted'')
            else
              (let s' = drop 2 s; len = len - 2 in
               if byte_at s' (len - 1) \<noteq> quote \<or> byte_at s' (len - 2) \<noteq> quote then
                 Inl BadInternalCall
               else Inr (s', len - 2, flags)))
         else Inr (s, len, flags)))"

definition parsestr_strip ::
  "'e pyenv \<Rightarrow> string \<Rightarrow> error + (prefix_flags \<times> bool \<times> string \<times> nat \<times> unicode option)" where
  "parsestr_strip env t =
     (let s = takeWhile (\<lambda>c. c \<noteq> CHR 0x00) t;
          (fl, s) = (if Py_ISALPHA (byte_at s 0) then prefix_loop no_prefix s else (no_prefix, s));
          quote = byte_at s 0
      in
      if quote = squote \<and>
         (p_fmode fl \<or> p_bytesmode fl \<or> p_rawmode fl \<or> p_remode fl \<or> p_cmode fl) then
        Inl (SyntaxError ''characters cannot have a prefix'')
      else if p_fmode fl \<and> feature_version env < 6 then
        Inl (SyntaxError ''Format strings are only supported in Python 3.6 and greater'')
      else if p_fmode fl \<and> p_bytesmode fl then Inl BadInternalCall
      else if quote \<noteq> squote \<and> quote \<noteq> dquote then Inl BadInternalCall
      else
        (case parsestr_quotes env fl (quote = squote) quote (drop 1 s) of
           Inl e \<Rightarrow> Inl e
         | Inr (s', len, flags) \<Rightarrow> Inr (fl, quote = squote, s', len, flags)))"

text \<open>
  The routines of the library take the length as a \<^verbatim>\<open>Py_ssize_t\<close>, which is negative
  for a \<^verbatim>\<open>size_t\<close> above \<^verbatim>\<open>SIZE_MAX / 2\<close>. \<open>sized\<close> is the byte string that such a
  routine reads at \<open>s\<close>; the routines fail on a negative length.
\<close>

definition as_ssize :: "'e pyenv \<Rightarrow> nat \<Rightarrow> int" where
  "as_ssize env n = (if n \<le> SIZE_MAX env div 2 then int n else int n - int (SIZE_MAX env) - 1)"

definition sized :: "'e pyenv \<Rightarrow> string \<Rightarrow> nat \<Rightarrow> string option" where
  "sized env s len = (if as_ssize env len < 0 then None else Some (take len s))"

text \<open>
  The two calls of the escape decoders in \<^verbatim>\<open>_Mys_PyPegen_parsestr\<close>, on the pointer \<open>s\<close>
  and the length \<open>len\<close>. \<^verbatim>\<open>decode_unicode_with_escapes\<close> takes the length as a
  \<^verbatim>\<open>size_t\<close> and compares it with \<^verbatim>\<open>SIZE_MAX / 6\<close> before it reads a byte; for a length
  inside the string this is the test that \<open>decode_unicode_with_escapes\<close> makes on the
  bytes it is given. \<^verbatim>\<open>decode_bytes_with_escapes\<close> takes it as a \<^verbatim>\<open>Py_ssize_t\<close>.
\<close>

definition decode_unicode_at :: "'e pyenv \<Rightarrow> string \<Rightarrow> nat \<Rightarrow> error + unicode" where
  "decode_unicode_at env s len =
     (if SIZE_MAX env div 6 < len then Inl NullWithoutException
      else decode_unicode_with_escapes env (take len s))"

definition decode_bytes_at :: "'e pyenv \<Rightarrow> string \<Rightarrow> nat \<Rightarrow> error + string" where
  "decode_bytes_at env s len =
     (case sized env s len of
        None \<Rightarrow> Inl LibraryError
      | Some body \<Rightarrow> decode_bytes_with_escapes env body)"

text \<open>
  The second half: an f-string is returned as it is (\<open>s\<close> and the length of its body);
  any other string is decoded, without the escape decoders when it is raw or holds no
  backslash. \<^verbatim>\<open>strchr\<close> and the test for ASCII bytes run to the end of the C string.
\<close>

definition parsestr_body ::
  "'e pyenv \<Rightarrow> prefix_flags \<Rightarrow> bool \<Rightarrow> string \<Rightarrow> nat \<Rightarrow> unicode option \<Rightarrow>
   error + parsestr_result" where
  "parsestr_body env fl ischar s len flags =
     (let out = \<lparr>bytesmode = p_bytesmode fl, rawmode = p_rawmode fl, remode = p_remode fl,
                  cmode = p_cmode fl, is_char = ischar, result = None, fstr = None,
                  reflags = flags\<rparr>
      in
      if p_fmode fl then Inr (out\<lparr>fstr := Some (s, as_ssize env len)\<rparr>)
      else
        (let raw = (p_rawmode fl \<or> backslash \<notin> set s) in
         if p_bytesmode fl then
           (if \<exists>ch \<in> set s. 128 \<le> (of_char ch :: nat) then
              Inl (SyntaxError ''bytes can only contain ASCII literal characters.'')
            else if raw then
              (case sized env s len of
                 None \<Rightarrow> Inl LibraryError
               | Some body \<Rightarrow> Inr (out\<lparr>rawmode := raw, result := Some (PyBytes body)\<rparr>))
            else
              (case decode_bytes_at env s len of
                 Inl e \<Rightarrow> Inl e
               | Inr v \<Rightarrow> Inr (out\<lparr>rawmode := raw, result := Some (PyBytes v)\<rparr>)))
         else
           (if raw then
              (case sized env s len of
                 None \<Rightarrow> Inl LibraryError
               | Some body \<Rightarrow>
                   (case PyUnicode_DecodeUTF8 env body of
                      None \<Rightarrow> Inl LibraryError
                    | Some v \<Rightarrow> Inr (out\<lparr>rawmode := raw, result := Some (PyUnicode v)\<rparr>)))
            else
              (case decode_unicode_at env s len of
                 Inl e \<Rightarrow> Inl e
               | Inr v \<Rightarrow> Inr (out\<lparr>rawmode := raw, result := Some (PyUnicode v)\<rparr>)))))"

definition parsestr :: "'e pyenv \<Rightarrow> string \<Rightarrow> error + parsestr_result" where
  "parsestr env t =
     (case parsestr_strip env t of
        Inl e \<Rightarrow> Inl e
      | Inr (fl, ischar, s, len, flags) \<Rightarrow> parsestr_body env fl ischar s len flags)"

section \<open>An environment for evaluation\<close>

text \<open>
  Closed examples need the surroundings fixed. \<open>example_env\<close> is a 32-bit platform with
  feature version 8 whose decoders are defined on plain ASCII text only, where the
  decoders of the CPython library return the text unchanged: \<open>ascii_utf8\<close> stands for
  UTF-8 decoding, \<open>ascii_plain\<close> and \<open>bytes_plain\<close> for the escape decoders on input
  without a backslash. No warning is raised, and the inner parser returns the text it
  is given.
\<close>

definition ascii_utf8 :: "string \<Rightarrow> unicode option" where
  "ascii_utf8 s = (if \<forall>c \<in> set s. \<not> high_bit c then Some (ascii s) else None)"

definition ascii_plain :: "string \<Rightarrow> unicode option" where
  "ascii_plain s =
     (if \<forall>c \<in> set s. \<not> high_bit c \<and> c \<noteq> backslash then Some (ascii s) else None)"

definition bytes_plain :: "string \<Rightarrow> string option" where
  "bytes_plain s = (if backslash \<in> set s then None else Some s)"

definition example_env :: "string pyenv" where
  "example_env =
     \<lparr>SIZE_MAX = 4294967295, INT_MAX = 2147483647, MAXLEVEL = 200, feature_version = 8,
      PyUnicode_DecodeUTF8 = ascii_utf8, PyUnicode_DecodeUnicodeEscape = ascii_plain,
      PyBytes_DecodeEscape = bytes_plain, PyErr_WarnExplicitObject = (\<lambda>c. WarnIssued),
      run_parser = Some\<rparr>"







section \<open>Vocabulary of the statements\<close>

text \<open>A byte that the literal scanner passes over without any further test: not a
  brace and, unless the string is raw, not a backslash.\<close>

definition literal_byte :: "bool \<Rightarrow> char \<Rightarrow> bool" where
  "literal_byte raw c = (c \<noteq> CHR ''{'' \<and> c \<noteq> CHR ''}'' \<and> (raw \<or> c \<noteq> backslash))"




text \<open>
  What the literal scanner passes in one iteration without a brace test that succeeds:
  a byte that is no brace (and no backslash, unless the string is raw), or, in a string
  that is not raw, a backslash with the byte after it when that byte is neither \<open>N\<close>
  nor a brace, or a complete \<^verbatim>\<open>\N{...}\<close> escape up to its closing brace.
\<close>

fun lit_item :: "bool \<Rightarrow> string \<Rightarrow> bool" where
  "lit_item raw [] = False"
| "lit_item raw [c] = literal_byte raw c"
| "lit_item raw [c, d] =
     (\<not> raw \<and> c = backslash \<and> d \<noteq> CHR ''N'' \<and> d \<noteq> CHR ''{'' \<and> d \<noteq> CHR ''}'')"
| "lit_item raw (c # d # e # name) =
     (\<not> raw \<and> c = backslash \<and> d = CHR ''N'' \<and> e = CHR ''{'' \<and>
      name \<noteq> [] \<and> last name = CHR ''}'' \<and> CHR ''}'' \<notin> set (butlast name))"

text \<open>The error of the warning that a brace escaped as \<^verbatim>\<open>\{\<close> raises, if it raises
  one; \<open>esc\<close> is the backslash before the brace, or nothing.\<close>

definition escape_warning :: "'e pyenv \<Rightarrow> string \<Rightarrow> char \<Rightarrow> error option" where
  "escape_warning env esc b =
     (if esc \<noteq> [] \<and> b = CHR ''{'' then
        (case warn_invalid_escape_sequence env b of Inl e \<Rightarrow> Some e | Inr u \<Rightarrow> None)
      else None)"

text \<open>
  The characters on which the expression scanner can leave its loop, and the errors
  that it raises on a byte other than a backslash: for \<^verbatim>\<open>#\<close>, for an opening bracket
  beyond \<^verbatim>\<open>MAXLEVEL\<close>, and for a closing bracket that matches nothing or the wrong
  bracket.
\<close>

definition expr_terminator :: "char \<Rightarrow> bool" where
  "expr_terminator c =
     (c = CHR ''!'' \<or> c = CHR '':'' \<or> c = CHR ''}'' \<or> c = CHR ''='' \<or> c = CHR ''>'' \<or> c = CHR ''<'')"

definition backslash_error :: error where
  "backslash_error = SyntaxError ''f-string expression part cannot include a backslash''"

definition scan_error_at :: "string \<Rightarrow> nat \<Rightarrow> error \<Rightarrow> bool" where
  "scan_error_at buf j e =
     (let ch = byte_at buf j in
      (ch = CHR ''#'' \<and>
       e = SyntaxError (''f-string expression part cannot include '' @ [squote, CHR ''#'', squote])) \<or>
      ((ch = CHR ''['' \<or> ch = CHR ''{'' \<or> ch = CHR ''('') \<and>
       e = SyntaxError ''f-string: too many nested parenthesis'') \<or>
      ((ch = CHR '']'' \<or> ch = CHR ''}'' \<or> ch = CHR '')'') \<and>
       (e = SyntaxError (''f-string: unmatched '' @ [squote, ch, squote]) \<or>
        (\<exists>opening. e = SyntaxError (''f-string: closing parenthesis '' @ [squote, ch, squote] @
           '' does not match opening parenthesis '' @ [squote, opening, squote])))))"

text \<open>The letters of a prefix, and what the loop has done when it stops.\<close>

definition has_letter :: "char \<Rightarrow> char \<Rightarrow> string \<Rightarrow> bool" where
  "has_letter lower upper p = (lower \<in> set p \<or> upper \<in> set p)"

definition loop_read_all :: "prefix_flags \<Rightarrow> string \<Rightarrow> prefix_flags \<Rightarrow> bool" where
  "loop_read_all fl p fl' =
     ((p_fmode fl \<or> has_letter (CHR ''f'') (CHR ''F'') p \<longrightarrow> p_fmode fl') \<and>
      (p_bytesmode fl \<or> has_letter (CHR ''b'') (CHR ''B'') p \<longrightarrow> p_bytesmode fl'))"







section \<open>Evaluation in the example environment\<close>

lemma example_env_simps:
  "SIZE_MAX example_env = 4294967295"
  "INT_MAX example_env = 2147483647"
  "MAXLEVEL example_env = 200"
  "feature_version example_env = 8"
  "PyUnicode_DecodeUTF8 example_env = ascii_utf8"
  "PyUnicode_DecodeUnicodeEscape example_env = ascii_plain"
  "PyBytes_DecodeEscape example_env = bytes_plain"
  "PyErr_WarnExplicitObject example_env = (\<lambda>c. WarnIssued)"
  "run_parser example_env = Some"
  by (simp_all add: example_env_def)

lemmas eval_simps = example_env_simps byte_at_def slice_def backslash_def squote_def dquote_def
  high_bit_def ascii_def ascii_utf8_def ascii_plain_def bytes_plain_def scan_init_def


section \<open>The expression compiler rejects blank expressions\<close>

text \<open>
  Claim C8. An expression made of spaces, tabs, newlines and form feeds only, the empty
  expression included, is rejected by \<^verbatim>\<open>fstring_compile_expr\<close> with the syntax error
  "f-string: empty expression not allowed"; the result is an error, so no expression
  node is produced and the inner parser is not consulted.
\<close>

theorem compile_expr_blank_rejected:
  assumes "set expr \<subseteq> {CHR '' '', CHR 0x09, CHR 0x0A, CHR 0x0C}"
  shows "fstring_compile_expr env expr = Inl (SyntaxError ''f-string: empty expression not allowed'')"
proof -
  from assms have "\<forall>c \<in> set expr. expr_blank c"
    by (auto simp: expr_blank_def)
  then have "dropWhile expr_blank expr = []"
    by simp
  then show ?thesis
    by (simp add: fstring_compile_expr_def)
qed

theorem compile_expr_blank_rejected_witness:
  "set [CHR '' '', CHR 0x09, CHR 0x0A, CHR 0x0C, CHR '' ''] \<subseteq> {CHR '' '', CHR 0x09, CHR 0x0A, CHR 0x0C} \<and>
   fstring_compile_expr example_env [CHR '' '', CHR 0x09, CHR 0x0A, CHR 0x0C, CHR '' ''] =
     Inl (SyntaxError ''f-string: empty expression not allowed'') \<and>
   fstring_compile_expr example_env [] = Inl (SyntaxError ''f-string: empty expression not allowed'')"
  using compile_expr_blank_rejected [of "[CHR '' '', CHR 0x09, CHR 0x0A, CHR 0x0C, CHR '' '']" example_env]
    compile_expr_blank_rejected [of "[]" example_env]
  by simp

section \<open>The literal scanner at a brace\<close>

lemma find_literal_step_no_escape:
  assumes "raw \<or> byte_at buf s \<noteq> backslash \<or> \<not> s + 1 < end"
  shows "find_literal_step env raw lvl buf end s = brace_check lvl buf end (byte_at buf s) (s + 1)"
proof -
  from assms have "\<not> (\<not> raw \<and> byte_at buf s = backslash \<and> s + 1 < end)"
    by blast
  then show ?thesis
    unfolding find_literal_step_def Let_def by (simp only: if_False)
qed

lemma find_literal_step_plain:
  assumes "literal_byte raw (byte_at buf s)"
  shows "find_literal_step env raw lvl buf end s = LitContinue (s + 1)"
proof -
  from assms have "raw \<or> byte_at buf s \<noteq> backslash \<or> \<not> s + 1 < end"
    by (auto simp: literal_byte_def)
  then have "find_literal_step env raw lvl buf end s = brace_check lvl buf end (byte_at buf s) (s + 1)"
    by (rule find_literal_step_no_escape)
  with assms show ?thesis
    by (simp add: brace_check_def literal_byte_def)
qed




text \<open>One iteration on an escape, in a string that is not raw.\<close>

lemma find_literal_step_escape:
  assumes "\<not> raw" and "byte_at buf s = backslash" and "s + 1 < end" and "byte_at buf (s + 1) = ch"
  shows "find_literal_step env raw lvl buf end s =
     (if ch = CHR ''N'' then
        (if s + 2 < end then
           (if byte_at buf (s + 2) = CHR ''{'' then LitContinue (skip_name buf end (s + 3))
            else LitBreak (s + 3))
         else LitBreak (s + 2))
      else if ch = CHR ''{'' then
        (case warn_invalid_escape_sequence env ch of
           Inl e \<Rightarrow> LitFail e
         | Inr u \<Rightarrow> brace_check lvl buf end ch (s + 2))
      else brace_check lvl buf end ch (s + 2))"
proof -
  have n: "s + 1 + 1 = s + 2" "s + 2 + 1 = s + 3"
    by simp_all
  from assms have c: "(\<not> raw \<and> byte_at buf s = backslash \<and> s + 1 < end) = True"
    by simp
  show ?thesis
    unfolding find_literal_step_def Let_def c assms(4) n by (simp only: if_True)
qed

lemma byte_at_pre: "byte_at (pre @ c # xs) (length pre) = c"
  by (simp add: byte_at_def)

lemma skip_name_name:
  "CHR ''}'' \<notin> set n \<Longrightarrow> length pre + length n < end \<Longrightarrow>
   skip_name (pre @ n @ CHR ''}'' # tail) end (length pre) = length pre + length n + 1"
proof (induction n arbitrary: pre)
  case Nil
  then show ?case
    by (subst skip_name.simps) (simp add: byte_at_pre)
next
  case (Cons c n)
  have "skip_name ((pre @ [c]) @ n @ CHR ''}'' # tail) end (length (pre @ [c])) =
        length (pre @ [c]) + length n + 1"
    using Cons.prems by (intro Cons.IH) auto
  then have IH: "skip_name (pre @ c # n @ CHR ''}'' # tail) end (length pre + 1) = length pre + length n + 2"
    by simp
  have "byte_at (pre @ (c # n) @ CHR ''}'' # tail) (length pre) = c"
    by (simp add: byte_at_def)
  with Cons.prems IH show ?case
    by (subst skip_name.simps) auto
qed

lemma find_literal_step_item:
  assumes "lit_item raw item" and "length pre + length item \<le> end"
  shows "find_literal_step env raw lvl (pre @ item @ tail) end (length pre) =
           LitContinue (length pre + length item)"
proof (cases "(raw, item)" rule: lit_item.cases)
  case (1 r)
  with assms(1) show ?thesis by simp
next
  case (2 r c)
  then have item: "item = [c]"
    by simp
  with assms(1) have "literal_byte raw (byte_at (pre @ item @ tail) (length pre))"
    by (simp add: byte_at_def)
  then have "find_literal_step env raw lvl (pre @ item @ tail) end (length pre) =
      LitContinue (length pre + 1)"
    by (rule find_literal_step_plain)
  then show ?thesis
    by (simp add: item)
next
  case (3 r c d)
  then have item: "item = [c, d]"
    by simp
  with assms(1) have nr: "\<not> raw" and c: "c = backslash"
    and d: "d \<noteq> CHR ''N''" "d \<noteq> CHR ''{''" "d \<noteq> CHR ''}''"
    by simp_all
  let ?buf = "pre @ item @ tail"
  have b0: "byte_at ?buf (length pre) = backslash" and b1: "byte_at ?buf (length pre + 1) = d"
    unfolding item c by (simp_all add: byte_at_def nth_append)
  have lt: "length pre + 1 < end"
    using assms(2) item by simp
  have "find_literal_step env raw lvl ?buf end (length pre) =
      brace_check lvl ?buf end d (length pre + 2)"
    using find_literal_step_escape [OF nr b0 lt b1, of env lvl] d by (simp only: if_False)
  also have "\<dots> = LitContinue (length pre + 2)"
    using d by (simp add: brace_check_def)
  finally show ?thesis
    by (simp add: item)
next
  case (4 r c d e nm)
  then have item0: "item = c # d # e # nm"
    by simp
  with assms(1) have nr: "\<not> raw" and c: "c = backslash" and d: "d = CHR ''N''" and e: "e = CHR ''{''"
    and nm: "nm \<noteq> []" "last nm = CHR ''}''" "CHR ''}'' \<notin> set (butlast nm)"
    by simp_all
  let ?buf = "pre @ item @ tail"
  define nb where "nb = butlast nm"
  from nm have nm': "nm = nb @ [CHR ''}'']" and nb: "CHR ''}'' \<notin> set nb"
    unfolding nb_def by (metis append_butlast_last_id, simp)
  have item: "item = [backslash, CHR ''N'', CHR ''{''] @ nb @ [CHR ''}'']"
    using item0 c d e nm' by simp
  have b0: "byte_at ?buf (length pre) = backslash" and b1: "byte_at ?buf (length pre + 1) = CHR ''N''"
    and b2: "byte_at ?buf (length pre + 2) = CHR ''{''"
    unfolding item by (simp_all add: byte_at_def nth_append)
  have len: "length item = length nb + 4"
    unfolding item by simp
  have lt: "length pre + 1 < end" and lt2: "length pre + 2 < end"
    using assms(2) len by simp_all
  have eq3: "length (pre @ [backslash, CHR ''N'', CHR ''{'']) = length pre + 3"
    by simp
  have bufeq: "(pre @ [backslash, CHR ''N'', CHR ''{'']) @ nb @ CHR ''}'' # tail = ?buf"
    by (simp add: item)
  have "length (pre @ [backslash, CHR ''N'', CHR ''{'']) + length nb < end"
    using assms(2) len by simp
  with nb have "skip_name ((pre @ [backslash, CHR ''N'', CHR ''{'']) @ nb @ CHR ''}'' # tail) end
          (length (pre @ [backslash, CHR ''N'', CHR ''{''])) =
        length (pre @ [backslash, CHR ''N'', CHR ''{'']) + length nb + 1"
    by (rule skip_name_name)
  then have "skip_name ?buf end (length pre + 3) = length pre + 3 + length nb + 1"
    unfolding bufeq eq3 .
  also have "\<dots> = length pre + length item"
    unfolding len by arith
  finally have sk: "skip_name ?buf end (length pre + 3) = length pre + length item" .
  have "find_literal_step env raw lvl ?buf end (length pre) =
      LitContinue (skip_name ?buf end (length pre + 3))"
    using find_literal_step_escape [OF nr b0 lt b1, of env lvl] lt2 b2 by simp
  then show ?thesis
    by (simp only: sk)
qed

lemma find_literal_loop_items:
  "\<forall>item \<in> set items. lit_item raw item \<Longrightarrow> length pre + length (concat items) \<le> end \<Longrightarrow>
   find_literal_loop env raw lvl (pre @ concat items @ tail) end (length pre) =
   find_literal_loop env raw lvl (pre @ concat items @ tail) end (length pre + length (concat items))"
proof (induction items arbitrary: pre)
  case Nil
  show ?case by simp
next
  case (Cons item items)
  let ?buf = "pre @ concat (item # items) @ tail"
  from Cons.prems(1) have item: "lit_item raw item" and items: "\<forall>item \<in> set items. lit_item raw item"
    by simp_all
  from item have ne: "item \<noteq> []"
    by auto
  have le: "length pre + length item \<le> end"
    using Cons.prems(2) by simp
  with ne have lt: "length pre < end"
    by (cases item) auto
  have step: "find_literal_step env raw lvl (pre @ item @ concat items @ tail) end (length pre) =
           LitContinue (length pre + length item)"
    using item le by (rule find_literal_step_item)
  have "find_literal_loop env raw lvl ?buf end (length pre) =
        find_literal_loop env raw lvl ?buf end (length pre + length item)"
    using lt step by (subst find_literal_loop.simps) simp
  also have "\<dots> = find_literal_loop env raw lvl ((pre @ item) @ concat items @ tail) end
                     (length (pre @ item))"
    by simp
  also have "\<dots> = find_literal_loop env raw lvl ((pre @ item) @ concat items @ tail) end
                     (length (pre @ item) + length (concat items))"
    using items Cons.prems(2) by (intro Cons.IH) auto
  finally show ?case
    by (simp add: add.assoc)
qed

text \<open>What the loop does when an iteration starts on a brace.\<close>

lemma find_literal_loop_at_brace:
  assumes "i < end" and "byte_at buf i = b" and "b = CHR ''{'' \<or> b = CHR ''}''"
  shows "find_literal_loop env raw lvl buf end i =
     (if lvl = 0 then
        (if i + 1 < end \<and> byte_at buf (i + 1) = b then Inr (1, i + 1, i + 2)
         else if b = CHR ''}'' then Inl (SyntaxError ''f-string: single '}' is not allowed'')
         else Inr (0, i, i))
      else Inr (0, i, i))"
proof -
  from assms(2,3) have "byte_at buf i \<noteq> backslash"
    by (auto simp: backslash_def)
  then have "find_literal_step env raw lvl buf end i = brace_check lvl buf end b (i + 1)"
    using find_literal_step_no_escape [of raw buf i "end" env lvl] assms(2) by simp
  then show ?thesis
    using assms by (subst find_literal_loop.simps) (auto simp: brace_check_def)
qed

text \<open>What it does when an iteration starts on a backslash that a brace follows, in a
  string that is not raw.\<close>

lemma find_literal_loop_at_escaped_brace:
  assumes "\<not> raw" and "byte_at buf i = backslash" and "i + 1 < end" and "byte_at buf (i + 1) = b"
    and "b = CHR ''{'' \<or> b = CHR ''}''"
  shows "find_literal_loop env raw lvl buf end i =
     (case escape_warning env [backslash] b of
        Some e \<Rightarrow> Inl e
      | None \<Rightarrow>
          (if lvl = 0 then
             (if i + 2 < end \<and> byte_at buf (i + 2) = b then Inr (1, i + 2, i + 3)
              else if b = CHR ''}'' then Inl (SyntaxError ''f-string: single '}' is not allowed'')
              else Inr (0, i + 1, i + 1))
           else Inr (0, i + 1, i + 1)))"
proof -
  have bN: "b \<noteq> CHR ''N''"
    using assms(5) by auto
  have step: "find_literal_step env raw lvl buf end i =
      (if b = CHR ''{'' then
        (case warn_invalid_escape_sequence env b of
           Inl e \<Rightarrow> LitFail e
         | Inr u \<Rightarrow> brace_check lvl buf end b (i + 2))
      else brace_check lvl buf end b (i + 2))"
    using find_literal_step_escape [OF assms(1,2,3,4), of env lvl] bN by (simp only: if_False)
  have lt: "i < end"
    using assms(3) by simp
  have n: "i + 2 + 1 = i + 3" "i + 2 - 1 = i + 1"
    by simp_all
  show ?thesis
    using assms(5) lt
    by (subst find_literal_loop.simps)
       (auto simp: step escape_warning_def brace_check_def n split: sum.splits)
qed

text \<open>Both readings of a brace at index \<open>j\<close>, after the bytes \<open>esc\<close>: nothing, or the
  backslash of an escape.\<close>

lemma find_literal_loop_read_brace:
  assumes "esc = [] \<or> (\<not> raw \<and> esc = [backslash])" and "b = CHR ''{'' \<or> b = CHR ''}''"
    and "j = length front + length esc" and "j < end"
  shows "find_literal_loop env raw lvl (front @ esc @ b # rest) end (length front) =
     (case escape_warning env esc b of
        Some e \<Rightarrow> Inl e
      | None \<Rightarrow>
          (if lvl = 0 then
             (if j + 1 < end \<and> byte_at (front @ esc @ b # rest) (j + 1) = b then Inr (1, j + 1, j + 2)
              else if b = CHR ''}'' then Inl (SyntaxError ''f-string: single '}' is not allowed'')
              else Inr (0, j, j))
           else Inr (0, j, j)))"
proof (cases "esc = []")
  case True
  then have j: "j = length front"
    using assms(3) by simp
  have "byte_at (front @ esc @ b # rest) j = b"
    using True j by (simp add: byte_at_def)
  from find_literal_loop_at_brace [OF assms(4) this assms(2), of env raw lvl] True j
  show ?thesis
    by (simp add: escape_warning_def)
next
  case False
  with assms(1) have nr: "\<not> raw" and esc: "esc = [backslash]"
    by simp_all
  let ?buf = "front @ esc @ b # rest"
  have j: "j = length front + 1"
    using assms(3) esc by simp
  have b0: "byte_at ?buf (length front) = backslash" and b1: "byte_at ?buf (length front + 1) = b"
    unfolding esc by (simp_all add: byte_at_def nth_append)
  have lt: "length front + 1 < end"
    using assms(4) j by simp
  have n: "length front + 1 + 1 = length front + 2" "length front + 1 + 2 = length front + 3"
    by simp_all
  show ?thesis
    using find_literal_loop_at_escaped_brace [OF nr b0 lt b1 assms(2), of env lvl]
    unfolding j n esc [symmetric] .
qed

text \<open>
  Claim C2, as amended. The bytes from the start of the scan up to a brace \<open>b\<close> are
  items that the scan passes (\<open>lit_item\<close>), and the brace is read either at the start
  of an iteration or, in a string that is not raw, as the byte after a backslash
  (\<open>esc\<close>); \<open>i\<close> is the index of the brace. When the brace is escaped as \<^verbatim>\<open>\{\<close> and the
  warning for the invalid escape is raised as an error, \<^verbatim>\<open>fstring_find_literal\<close> fails
  with that error. Otherwise, at recursion level 0, when the next byte is the same brace,
  the loop ends with status 1, the literal ending at \<open>i + 1\<close>, after the first brace, and
  the cursor at \<open>i + 2\<close>, after the second brace; the bytes handed to the decoder are
  those before the brace with the one brace, and the function returns status 1 with
  the decoded literal, or the error of the decoder when the decoder rejects these
  bytes. At a level above 0 nothing is looked up after the brace: the loop ends with
  status 0 and the cursor on the brace, which for \<^verbatim>\<open>}\<close> is the end of the nested
  format specification, and the function returns the literal before it, if any, again
  unless the decoder rejects it.
\<close>

theorem doubled_brace_scan:
  assumes "\<forall>item \<in> set items. lit_item raw item"
    and "esc = [] \<or> (\<not> raw \<and> esc = [backslash])"
    and "b = CHR ''{'' \<or> b = CHR ''}''"
    and "buf = pre @ concat items @ esc @ b # rest"
    and "i = length pre + length (concat items) + length esc"
    and "i < end"
  shows "case escape_warning env esc b of
           Some e \<Rightarrow> fstring_find_literal env buf (length pre) end raw lvl = Inl e
         | None \<Rightarrow>
             (lvl = 0 \<and> i + 1 < end \<and> byte_at buf (i + 1) = b \<longrightarrow>
                find_literal_loop env raw lvl buf end (length pre) = Inr (1, i + 1, i + 2) \<and>
                fstring_find_literal env buf (length pre) end raw lvl =
                  (case decode_literal env raw (concat items @ esc @ [b]) of
                     Inl e \<Rightarrow> Inl e
                   | Inr literal \<Rightarrow> Inr (1, Some literal, i + 2))) \<and>
             (0 < lvl \<longrightarrow>
                find_literal_loop env raw lvl buf end (length pre) = Inr (0, i, i) \<and>
                fstring_find_literal env buf (length pre) end raw lvl =
                  (if concat items @ esc = [] then Inr (0, None, i)
                   else
                     (case decode_literal env raw (concat items @ esc) of
                        Inl e \<Rightarrow> Inl e
                      | Inr literal \<Rightarrow> Inr (0, Some literal, i))))"
proof -
  let ?front = "pre @ concat items"
  have buf': "buf = pre @ concat items @ (esc @ b # rest)" and buf'': "buf = ?front @ esc @ b # rest"
    using assms(4) by simp_all
  have le: "length pre + length (concat items) \<le> end"
    using assms(5,6) by simp
  have "find_literal_loop env raw lvl buf end (length pre) =
        find_literal_loop env raw lvl buf end (length pre + length (concat items))"
    unfolding buf' using assms(1) le by (rule find_literal_loop_items)
  also have "\<dots> = find_literal_loop env raw lvl (?front @ esc @ b # rest) end (length ?front)"
    by (simp add: buf'')
  also have "\<dots> =
     (case escape_warning env esc b of
        Some e \<Rightarrow> Inl e
      | None \<Rightarrow>
          (if lvl = 0 then
             (if i + 1 < end \<and> byte_at (?front @ esc @ b # rest) (i + 1) = b then Inr (1, i + 1, i + 2)
              else if b = CHR ''}'' then Inl (SyntaxError ''f-string: single '}' is not allowed'')
              else Inr (0, i, i))
           else Inr (0, i, i)))"
    using assms(2,3) _ assms(6) by (rule find_literal_loop_read_brace) (simp add: assms(5))
  finally have loop: "find_literal_loop env raw lvl buf end (length pre) =
     (case escape_warning env esc b of
        Some e \<Rightarrow> Inl e
      | None \<Rightarrow>
          (if lvl = 0 then
             (if i + 1 < end \<and> byte_at buf (i + 1) = b then Inr (1, i + 1, i + 2)
              else if b = CHR ''}'' then Inl (SyntaxError ''f-string: single '}' is not allowed'')
              else Inr (0, i, i))
           else Inr (0, i, i)))"
    by (simp only: buf'' [symmetric])
  have sl1: "slice buf (length pre) (Suc i) = concat items @ esc @ [b]"
    and sl0: "slice buf (length pre) i = concat items @ esc"
    unfolding assms(4,5) by (simp_all add: slice_def)
  have ne: "length pre \<noteq> i + 1"
    using assms(5) by simp
  have eq: "length pre = i \<longleftrightarrow> concat items @ esc = []"
    using assms(5) by auto
  show ?thesis
  proof (cases "escape_warning env esc b")
    case (Some e)
    with loop show ?thesis
      by (simp add: fstring_find_literal_def)
  next
    case None
    have doubled: "find_literal_loop env raw lvl buf end (length pre) = Inr (1, i + 1, i + 2) \<and>
                fstring_find_literal env buf (length pre) end raw lvl =
                  (case decode_literal env raw (concat items @ esc @ [b]) of
                     Inl e \<Rightarrow> Inl e
                   | Inr literal \<Rightarrow> Inr (1, Some literal, i + 2))"
      if "lvl = 0 \<and> i + 1 < end \<and> byte_at buf (i + 1) = b"
    proof -
      from that loop None have l: "find_literal_loop env raw lvl buf end (length pre) = Inr (1, i + 1, i + 2)"
        by simp
      then have "fstring_find_literal env buf (length pre) end raw lvl =
                  (case decode_literal env raw (concat items @ esc @ [b]) of
                     Inl e \<Rightarrow> Inl e
                   | Inr literal \<Rightarrow> Inr (1, Some literal, i + 2))"
        using ne by (simp add: fstring_find_literal_def sl1 split: sum.splits)
      with l show ?thesis
        by (rule conjI)
    qed
    have nested: "find_literal_loop env raw lvl buf end (length pre) = Inr (0, i, i) \<and>
                fstring_find_literal env buf (length pre) end raw lvl =
                  (if concat items @ esc = [] then Inr (0, None, i)
                   else
                     (case decode_literal env raw (concat items @ esc) of
                        Inl e \<Rightarrow> Inl e
                      | Inr literal \<Rightarrow> Inr (0, Some literal, i)))"
      if "0 < lvl"
    proof -
      from that loop None have l: "find_literal_loop env raw lvl buf end (length pre) = Inr (0, i, i)"
        by simp
      then have "fstring_find_literal env buf (length pre) end raw lvl =
                  (if concat items @ esc = [] then Inr (0, None, i)
                   else
                     (case decode_literal env raw (concat items @ esc) of
                        Inl e \<Rightarrow> Inl e
                      | Inr literal \<Rightarrow> Inr (0, Some literal, i)))"
        using eq by (simp add: fstring_find_literal_def sl0 split: sum.splits)
      with l show ?thesis
        by (rule conjI)
    qed
    from doubled nested None show ?thesis
      by simp
  qed
qed

text \<open>In the second example the escape decoder leaves the unknown escape \<^verbatim>\<open>\}\<close> as
  it is, as the decoder of the library does.\<close>

theorem doubled_brace_scan_witness:
  "fstring_find_literal example_env ''ab{{cd'' 0 6 False 0 = Inr (1, Some (ascii ''ab{''), 4) \<and>
   fstring_find_literal (example_env\<lparr>PyUnicode_DecodeUnicodeEscape := (\<lambda>s. Some (ascii s))\<rparr>)
       (''a'' @ [backslash] @ ''}}cd'') 0 6 False 0 =
     Inr (1, Some (ascii (''a'' @ [backslash] @ ''}'')), 4) \<and>
   fstring_find_literal example_env ''>5}}'' 0 4 False 1 = Inr (0, Some (ascii ''>5''), 2)"
  using doubled_brace_scan [of "[''a'', ''b'']" False "[]" "CHR ''{''" "''ab{{cd''" "[]" "''{cd''" 2 6
      0 example_env]
    doubled_brace_scan [of "[''a'']" False "[backslash]" "CHR ''}''" "''a'' @ [backslash] @ ''}}cd''"
      "[]" "''}cd''" 2 6 0 "example_env\<lparr>PyUnicode_DecodeUnicodeEscape := (\<lambda>s. Some (ascii s))\<rparr>"]
    doubled_brace_scan [of "[''>'', ''5'']" False "[]" "CHR ''}''" "''>5}}''" "[]" "''}''" 2 4
      1 example_env]
  by (simp add: literal_byte_def escape_warning_def decode_literal_def
      decode_unicode_with_escapes_def eval_simps)

text \<open>
  The claim as written fails for the body \<^verbatim>\<open>\x{{\<close> in a string that is not raw: the
  loop finds the doubled brace, but the escape decoder rejects the literal \<^verbatim>\<open>\x{\<close>
  and the scanner fails. It fails as well for \<^verbatim>\<open>\{{\<close> when the warning for the invalid
  escape is raised as an error.
\<close>

theorem doubled_brace_decode_failure_counterexample:
  "find_literal_loop example_env False 0 ([backslash] @ ''x{{'') 4 0 = Inr (1, 3, 4) \<and>
   fstring_find_literal example_env ([backslash] @ ''x{{'') 0 4 False 0 = Inl LibraryError \<and>
   fstring_find_literal (example_env\<lparr>PyErr_WarnExplicitObject := (\<lambda>c. WarnDeprecationRaised)\<rparr>)
       ([backslash] @ ''{{'') 0 3 False 0 =
     Inl (SyntaxError (''invalid escape sequence '' @ [backslash, CHR ''{'']))"
  by (simp add: fstring_find_literal_def find_literal_loop.simps find_literal_step_def
      brace_check_def warn_invalid_escape_sequence_def decode_literal_def
      decode_unicode_with_escapes_def eval_simps)



section \<open>The expression scanner\<close>

text \<open>One iteration passes no backslash, and the loop passes none either.\<close>

lemma find_expr_step_Next_cases:
  "find_expr_step env buf end i st = ExprNext i' st' \<Longrightarrow>
   byte_at buf i \<noteq> backslash \<and>
   (i' = i + 1 \<or> (i' = i + 2 \<and> byte_at buf (i + 1) = CHR ''='') \<or>
    (i' = i + 3 \<and> byte_at buf (i + 1) = byte_at buf i \<and> byte_at buf (i + 2) = byte_at buf i))"
  by (auto simp: find_expr_step_def Let_def split: if_splits list.splits)

lemma find_expr_step_Next:
  assumes "find_expr_step env buf end i st = ExprNext i' st'"
  shows "i < i' \<and> (\<forall>m. i \<le> m \<and> m < i' \<longrightarrow> byte_at buf m \<noteq> backslash)"
proof -
  from assms have b: "byte_at buf i \<noteq> backslash"
    and c: "i' = i + 1 \<or> (i' = i + 2 \<and> byte_at buf (i + 1) = CHR ''='') \<or>
      (i' = i + 3 \<and> byte_at buf (i + 1) = byte_at buf i \<and> byte_at buf (i + 2) = byte_at buf i)"
    using find_expr_step_Next_cases [of env buf "end" i st i' st'] by simp_all
  have eq: "CHR ''='' \<noteq> backslash"
    by (simp add: backslash_def)
  have "byte_at buf m \<noteq> backslash" if "i \<le> m \<and> m < i'" for m
  proof -
    from that c have "m = i \<or> (m = i + 1 \<and> (byte_at buf (i + 1) = CHR ''='' \<or> byte_at buf (i + 1) = byte_at buf i)) \<or>
        (m = i + 2 \<and> byte_at buf (i + 2) = byte_at buf i)"
      by auto
    with b eq show ?thesis
      by auto
  qed
  moreover from c have "i < i'"
    by auto
  ultimately show ?thesis
    by blast
qed

lemma find_expr_step_Break:
  "find_expr_step env buf end i st = ExprBreak \<Longrightarrow>
   expr_terminator (byte_at buf i) \<and> byte_at buf i \<noteq> backslash"
  by (auto simp: find_expr_step_def Let_def expr_terminator_def backslash_def
      split: if_splits list.splits)

lemma find_expr_step_Fail:
  "find_expr_step env buf end i st = ExprFail e \<Longrightarrow>
   (byte_at buf i = backslash \<and> e = backslash_error) \<or>
   (byte_at buf i \<noteq> backslash \<and> scan_error_at buf i e)"
  by (auto simp: find_expr_step_def Let_def scan_error_at_def backslash_error_def
      split: if_splits list.splits)


lemma find_expr_loop_before_backslash:
  "i \<le> k \<Longrightarrow> k < end \<Longrightarrow> byte_at buf k = backslash \<Longrightarrow>
   find_expr_loop env buf end i st = Inl backslash_error \<or>
   (\<exists>j e. i \<le> j \<and> j < k \<and> scan_error_at buf j e \<and> find_expr_loop env buf end i st = Inl e) \<or>
   (\<exists>j st'. i \<le> j \<and> j < k \<and> expr_terminator (byte_at buf j) \<and>
      (\<forall>m. i \<le> m \<and> m < j \<longrightarrow> byte_at buf m \<noteq> backslash) \<and>
      find_expr_loop env buf end i st = Inr (j, st'))"
proof (induction "k - i" arbitrary: i st rule: less_induct)
  case less
  from less.prems have lt: "i < end"
    by simp
  show ?case
  proof (cases "find_expr_step env buf end i st")
    case (ExprNext i' st')
    then have prog: "i < i'" and clean: "\<forall>m. i \<le> m \<and> m < i' \<longrightarrow> byte_at buf m \<noteq> backslash"
      using find_expr_step_Next [of env buf "end" i st i' st'] by simp_all
    from clean less.prems(1,3) have le: "i' \<le> k"
      by (meson not_le)
    have loop: "find_expr_loop env buf end i st = find_expr_loop env buf end i' st'"
      using lt ExprNext by (subst find_expr_loop.simps) simp
    from prog le have "k - i' < k - i"
      by simp
    from less.hyps [OF this le less.prems(2,3), of st']
    consider (bs) "find_expr_loop env buf end i' st' = Inl backslash_error"
      | (err) j e where "i' \<le> j" "j < k" "scan_error_at buf j e"
          "find_expr_loop env buf end i' st' = Inl e"
      | (stop) j st'' where "i' \<le> j" "j < k" "expr_terminator (byte_at buf j)"
          "\<forall>m. i' \<le> m \<and> m < j \<longrightarrow> byte_at buf m \<noteq> backslash"
          "find_expr_loop env buf end i' st' = Inr (j, st'')"
      by blast
    then show ?thesis
    proof cases
      case bs
      with loop show ?thesis by simp
    next
      case err
      with loop prog have "i \<le> j \<and> j < k \<and> scan_error_at buf j e \<and>
          find_expr_loop env buf end i st = Inl e"
        by simp
      then show ?thesis by blast
    next
      case stop
      have "\<forall>m. i \<le> m \<and> m < j \<longrightarrow> byte_at buf m \<noteq> backslash"
        using clean stop(4) by (metis not_le)
      with stop loop prog have "i \<le> j \<and> j < k \<and> expr_terminator (byte_at buf j) \<and>
          (\<forall>m. i \<le> m \<and> m < j \<longrightarrow> byte_at buf m \<noteq> backslash) \<and>
          find_expr_loop env buf end i st = Inr (j, st'')"
        by simp
      then show ?thesis by blast
    qed
  next
    case ExprBreak
    then have t: "expr_terminator (byte_at buf i)" and nb: "byte_at buf i \<noteq> backslash"
      using find_expr_step_Break [of env buf "end" i st] by simp_all
    from nb less.prems(1,3) have "i < k"
      by (metis le_neq_implies_less)
    moreover have "find_expr_loop env buf end i st = Inr (i, st)"
      using lt ExprBreak by (subst find_expr_loop.simps) simp
    ultimately have "i \<le> i \<and> i < k \<and> expr_terminator (byte_at buf i) \<and>
          (\<forall>m. i \<le> m \<and> m < i \<longrightarrow> byte_at buf m \<noteq> backslash) \<and>
          find_expr_loop env buf end i st = Inr (i, st)"
      using t by auto
    then show ?thesis by blast
  next
    case (ExprFail e)
    have loop: "find_expr_loop env buf end i st = Inl e"
      using lt ExprFail by (subst find_expr_loop.simps) simp
    from ExprFail consider (bs) "e = backslash_error"
      | (other) "byte_at buf i \<noteq> backslash" "scan_error_at buf i e"
      using find_expr_step_Fail [of env buf "end" i st e] by blast
    then show ?thesis
    proof cases
      case bs
      with loop show ?thesis by simp
    next
      case other
      from other(1) less.prems(1,3) have "i < k"
        by (metis le_neq_implies_less)
      with other(2) loop have "i \<le> i \<and> i < k \<and> scan_error_at buf i e \<and>
          find_expr_loop env buf end i st = Inl e"
        by simp
      then show ?thesis by blast
    qed
  qed
qed

text \<open>
  Claim C9, as amended. \<^verbatim>\<open>fstring_find_expr\<close> is called on the opening brace at \<open>str\<close>,
  and a backslash stands at an index \<open>k\<close> after it inside the body, anywhere: inside a
  nested string, inside brackets, or neither. Then the call fails with the syntax error
  "f-string expression part cannot include a backslash", or it has failed before: at
  recursion level 2 or more with "f-string: expressions nested too deeply", or on a
  byte before the backslash with one of the other errors of the scanner. The only
  other outcome is that the scan has left its loop on a terminating character before
  the backslash, with no backslash in the range it has passed: then the backslash lies
  after the expression and is not part of its region. So no \<open>FormattedValue\<close> is made
  from a region that holds a backslash.
\<close>

theorem backslash_in_expression_rejected:
  assumes "str < k" and "k < end" and "byte_at buf k = backslash"
  shows "fstring_find_expr parse env buf str end recurse_lvl =
           Some (Inl (SyntaxError ''f-string expression part cannot include a backslash'')) \<or>
         (2 \<le> recurse_lvl \<and>
          fstring_find_expr parse env buf str end recurse_lvl =
            Some (Inl (SyntaxError ''f-string: expressions nested too deeply''))) \<or>
         (\<exists>j e. str < j \<and> j < k \<and> scan_error_at buf j e \<and>
            fstring_find_expr parse env buf str end recurse_lvl = Some (Inl e)) \<or>
         (\<exists>j st. str < j \<and> j < k \<and> expr_terminator (byte_at buf j) \<and>
            (\<forall>m. str < m \<and> m < j \<longrightarrow> byte_at buf m \<noteq> backslash) \<and>
            find_expr_loop env buf end (str + 1) scan_init = Inr (j, st))"
proof (cases "2 \<le> recurse_lvl")
  case True
  then have "fstring_find_expr parse env buf str end recurse_lvl =
            Some (Inl (SyntaxError ''f-string: expressions nested too deeply''))"
    by (simp add: fstring_find_expr_def)
  with True show ?thesis
    by blast
next
  case False
  have res: "fstring_find_expr parse env buf str end recurse_lvl = Some (Inl e)"
    if "find_expr_loop env buf end (str + 1) scan_init = Inl e" for e
    using that False by (simp add: fstring_find_expr_def)
  from assms(1) have "str + 1 \<le> k"
    by simp
  from find_expr_loop_before_backslash [OF this assms(2,3), of env scan_init]
  consider (bs) "find_expr_loop env buf end (str + 1) scan_init = Inl backslash_error"
    | (err) j e where "str + 1 \<le> j" "j < k" "scan_error_at buf j e"
        "find_expr_loop env buf end (str + 1) scan_init = Inl e"
    | (stop) j st where "str + 1 \<le> j" "j < k" "expr_terminator (byte_at buf j)"
        "\<forall>m. str + 1 \<le> m \<and> m < j \<longrightarrow> byte_at buf m \<noteq> backslash"
        "find_expr_loop env buf end (str + 1) scan_init = Inr (j, st)"
    by blast
  then show ?thesis
  proof cases
    case bs
    then have "fstring_find_expr parse env buf str end recurse_lvl = Some (Inl backslash_error)"
      by (rule res)
    then show ?thesis
      by (simp add: backslash_error_def)
  next
    case err
    from err(4) have "fstring_find_expr parse env buf str end recurse_lvl = Some (Inl e)"
      by (rule res)
    with err(1,2,3) have "str < j \<and> j < k \<and> scan_error_at buf j e \<and>
            fstring_find_expr parse env buf str end recurse_lvl = Some (Inl e)"
      by simp
    then show ?thesis
      by blast
  next
    case stop
    then have "str < j \<and> j < k \<and> expr_terminator (byte_at buf j) \<and>
            (\<forall>m. str < m \<and> m < j \<longrightarrow> byte_at buf m \<noteq> backslash) \<and>
            find_expr_loop env buf end (str + 1) scan_init = Inr (j, st)"
      by simp
    then show ?thesis
      by blast
  qed
qed

text \<open>A backslash inside a nested string inside brackets, and a backslash in the format
  specification, after the colon that ends the expression.\<close>

theorem backslash_in_expression_rejected_witness:
  "byte_at (''{a['' @ [dquote] @ ''x'' @ [backslash] @ ''b'' @ [dquote] @ '']}'') 5 = backslash \<and>
   fstring_find_expr (\<lambda>lvl s. None) example_env
       (''{a['' @ [dquote] @ ''x'' @ [backslash] @ ''b'' @ [dquote] @ '']}'') 0 10 0 =
     Some (Inl (SyntaxError ''f-string expression part cannot include a backslash'')) \<and>
   byte_at (''{a:'' @ [backslash] @ ''n}'') 3 = backslash \<and>
   find_expr_loop example_env (''{a:'' @ [backslash] @ ''n}'') 6 1 scan_init = Inr (2, scan_init)"
  using backslash_in_expression_rejected [of 0 5 10
      "''{a['' @ [dquote] @ ''x'' @ [backslash] @ ''b'' @ [dquote] @ '']}''" "\<lambda>lvl s. None"
      example_env 0]
    backslash_in_expression_rejected [of 0 3 6 "''{a:'' @ [backslash] @ ''n}''" "\<lambda>lvl s. None"
      example_env 0]
  by (simp add: eval_simps fstring_find_expr_def find_expr_loop.simps find_expr_step_def)

text \<open>
  The claim as written fails for the body \<^verbatim>\<open>{a#\}\<close>, where the error is the one for
  \<^verbatim>\<open>#\<close>, and at recursion level 2, where the error is the one for the nesting.
\<close>

theorem hash_before_backslash_counterexample:
  "fstring_find_expr (\<lambda>lvl s. None) example_env (''{a#'' @ [backslash] @ ''}'') 0 5 0 =
     Some (Inl (SyntaxError (''f-string expression part cannot include '' @ [squote, CHR ''#'', squote]))) \<and>
   fstring_find_expr (\<lambda>lvl s. None) example_env (''{'' @ [backslash] @ ''}'') 0 3 2 =
     Some (Inl (SyntaxError ''f-string: expressions nested too deeply''))"
  by (simp add: eval_simps fstring_find_expr_def find_expr_loop.simps find_expr_step_def)

text \<open>
  One iteration outside strings and brackets on one of the six characters that the
  source tests together: a two-character operator is passed over, \<^verbatim>\<open><\<close> and \<^verbatim>\<open>>\<close>
  are passed over when a byte follows them inside the body, and everything else ends
  the loop, which includes \<^verbatim>\<open><\<close> and \<^verbatim>\<open>>\<close> on the last byte of the body.
\<close>

lemma find_expr_step_top_level:
  assumes "quote_char st = CHR 0x00" and "parenstack st = []" and "ch = byte_at buf i"
    and "ch = CHR ''!'' \<or> ch = CHR '':'' \<or> ch = CHR ''}'' \<or> ch = CHR ''='' \<or>
         ch = CHR ''>'' \<or> ch = CHR ''<''"
  shows "find_expr_step env buf end i st =
     (if i + 1 < end \<and> ch \<noteq> CHR '':'' \<and> ch \<noteq> CHR ''}'' \<and> byte_at buf (i + 1) = CHR ''=''
      then ExprNext (i + 2) st
      else if i + 1 < end \<and> (ch = CHR ''>'' \<or> ch = CHR ''<'') then ExprNext (i + 1) st
      else ExprBreak)"
  using assms
  by (auto simp: find_expr_step_def Let_def backslash_def squote_def dquote_def)

text \<open>
  Claim C4. The claim holds wherever a byte follows inside the body, but not on the
  last byte: in the body \<^verbatim>\<open>{a<\<close> the loop stops on the \<^verbatim>\<open><\<close> at index 2, which is then
  the end of the expression range as a terminator would be; the expression \<^verbatim>\<open>a\<close> is
  compiled and the call fails for the missing brace. In \<^verbatim>\<open>{<\<close> the range is empty and
  the error is that of an empty expression. The source says in a comment that these
  characters do not end an expression, and \<^verbatim>\<open>fstring_compile_expr\<close> asserts that the
  range ends on one of \<^verbatim>\<open>}\<close>, \<^verbatim>\<open>!\<close>, \<^verbatim>\<open>:\<close>, \<^verbatim>\<open>=\<close>.
\<close>

theorem less_than_on_last_byte_ends_scan:
  "find_expr_loop example_env ''{a<'' 3 1 scan_init = Inr (2, scan_init) \<and>
   fstring_find_expr (\<lambda>lvl s. None) example_env ''{a<'' 0 3 0 = Some (Inl expecting_brace) \<and>
   fstring_find_expr (\<lambda>lvl s. None) example_env ''{<'' 0 2 0 =
     Some (Inl (SyntaxError ''f-string: empty expression not allowed''))"
  by (simp add: eval_simps find_expr_loop.simps find_expr_step_def fstring_find_expr_def
      fstring_compile_expr_def expr_blank_def find_expr_conversion_def find_expr_spec_def
      find_expr_close_def)

section \<open>The kind of a plain constant\<close>

text \<open>
  Claim C5, as amended. When no f-string was added to the state, \<^verbatim>\<open>Finish\<close> returns one
  \<open>Constant\<close> holding the pending text (the empty text if there is none); its kind is
  \<open>u\<close> exactly when the first byte of the first token is a lower-case \<open>u\<close>, and absent
  otherwise, also for an upper-case \<open>U\<close>.
\<close>

theorem finish_plain_kind:
  assumes "\<not> fmode state"
  shows "FstringParser_Finish state first_token =
           Constant (case last_str state of None \<Rightarrow> [] | Some l \<Rightarrow> l)
             (if byte_at first_token 0 = CHR ''u'' then Some ''u'' else None)"
  using assms by (simp add: FstringParser_Finish_def make_str_node_and_del_def)

theorem finish_plain_kind_witness:
  "\<not> fmode (FstringParser_Init :: string FstringParser) \<and>
   FstringParser_Finish (FstringParser_Init :: string FstringParser) (''u'' @ [dquote] @ ''abc'' @ [dquote]) =
     Constant [] (Some ''u'') \<and>
   FstringParser_Finish (FstringParser_Init :: string FstringParser) ([dquote] @ ''abc'' @ [dquote]) =
     Constant [] None"
  using finish_plain_kind [of "FstringParser_Init :: string FstringParser" "''u'' @ [dquote] @ ''abc'' @ [dquote]"]
    finish_plain_kind [of "FstringParser_Init :: string FstringParser" "[dquote] @ ''abc'' @ [dquote]"]
  by (simp add: FstringParser_Init_def byte_at_def dquote_def)

text \<open>The claim as written fails for a token that starts with an upper-case \<open>U\<close>: the
  constant has no kind.\<close>

theorem finish_upper_case_U_counterexample:
  "FstringParser_Finish
     ((FstringParser_Init :: string FstringParser)\<lparr>last_str := Some (ascii ''abc'')\<rparr>)
     (''U'' @ [dquote] @ ''abc'' @ [dquote]) = Constant (ascii ''abc'') None"
  by (simp add: FstringParser_Finish_def make_str_node_and_del_def FstringParser_Init_def byte_at_def)

section \<open>The prefix of a token\<close>

lemma prefix_letter_alpha:
  "c = CHR ''b'' \<or> c = CHR ''B'' \<or> c = CHR ''u'' \<or> c = CHR ''U'' \<or> c = CHR ''r'' \<or> c = CHR ''R'' \<or>
   c = CHR ''f'' \<or> c = CHR ''F'' \<or> c = CHR ''c'' \<or> c = CHR ''C'' \<Longrightarrow> Py_ISALPHA c"
  by (auto simp: Py_ISALPHA_def)

lemma prefix_loop_other:
  "\<not> (c = CHR ''b'' \<or> c = CHR ''B'' \<or> c = CHR ''u'' \<or> c = CHR ''U'' \<or> c = CHR ''r'' \<or> c = CHR ''R'' \<or>
   c = CHR ''f'' \<or> c = CHR ''F'' \<or> c = CHR ''c'' \<or> c = CHR ''C'') \<Longrightarrow> prefix_loop fl (c # cs) = (fl, c # cs)"
  by simp

lemma prefix_loop_b:
  "\<not> p_bytesmode fl \<or> \<not> p_rawmode fl \<or> \<not> p_remode fl \<or> \<not> p_cmode fl \<Longrightarrow>
   c = CHR ''b'' \<or> c = CHR ''B'' \<Longrightarrow> prefix_loop fl (c # s) = prefix_loop (fl\<lparr>p_bytesmode := True\<rparr>) s"
  by (subst prefix_loop.simps) (auto simp del: prefix_loop.simps)

lemma prefix_loop_u:
  "\<not> p_bytesmode fl \<or> \<not> p_rawmode fl \<or> \<not> p_remode fl \<or> \<not> p_cmode fl \<Longrightarrow>
   c = CHR ''u'' \<or> c = CHR ''U'' \<Longrightarrow> prefix_loop fl (c # s) = prefix_loop fl s"
  by (subst prefix_loop.simps) (auto simp del: prefix_loop.simps)

lemma prefix_loop_re:
  "\<not> p_bytesmode fl \<or> \<not> p_rawmode fl \<or> \<not> p_remode fl \<or> \<not> p_cmode fl \<Longrightarrow>
   c = CHR ''r'' \<or> c = CHR ''R'' \<Longrightarrow> e = CHR ''e'' \<or> e = CHR ''E'' \<Longrightarrow>
   prefix_loop fl (c # e # s) = prefix_loop (fl\<lparr>p_rawmode := True, p_remode := True\<rparr>) s"
  by (subst prefix_loop.simps) (auto simp del: prefix_loop.simps)

lemma prefix_loop_r:
  "\<not> p_bytesmode fl \<or> \<not> p_rawmode fl \<or> \<not> p_remode fl \<or> \<not> p_cmode fl \<Longrightarrow>
   c = CHR ''r'' \<or> c = CHR ''R'' \<Longrightarrow> x \<noteq> CHR ''e'' \<and> x \<noteq> CHR ''E'' \<Longrightarrow>
   prefix_loop fl (c # x # xs) = prefix_loop (fl\<lparr>p_rawmode := True\<rparr>) (x # xs)"
  by (subst prefix_loop.simps) (auto simp del: prefix_loop.simps)

lemma prefix_loop_f:
  "\<not> p_bytesmode fl \<or> \<not> p_rawmode fl \<or> \<not> p_remode fl \<or> \<not> p_cmode fl \<Longrightarrow>
   c = CHR ''f'' \<or> c = CHR ''F'' \<Longrightarrow> prefix_loop fl (c # s) = prefix_loop (fl\<lparr>p_fmode := True\<rparr>) s"
  by (subst prefix_loop.simps) (auto simp del: prefix_loop.simps)

lemma prefix_loop_c:
  "\<not> p_bytesmode fl \<or> \<not> p_rawmode fl \<or> \<not> p_remode fl \<or> \<not> p_cmode fl \<Longrightarrow>
   c = CHR ''c'' \<or> c = CHR ''C'' \<Longrightarrow>
   prefix_loop fl (c # s) = prefix_loop (fl\<lparr>p_rawmode := True, p_cmode := True\<rparr>) s"
  by (subst prefix_loop.simps) (auto simp del: prefix_loop.simps)

lemma prefix_loop_stop:
  "\<not> (\<not> p_bytesmode fl \<or> \<not> p_rawmode fl \<or> \<not> p_remode fl \<or> \<not> p_cmode fl) \<Longrightarrow>
   prefix_loop fl (c # s) = (fl, c # s)"
  by (subst prefix_loop.simps) (auto simp del: prefix_loop.simps)

lemma loop_read_all_step:
  assumes "loop_read_all fl2 p' fl'"
    and "p_fmode fl \<longrightarrow> p_fmode fl2" and "p_bytesmode fl \<longrightarrow> p_bytesmode fl2"
    and "c = CHR ''f'' \<or> c = CHR ''F'' \<longrightarrow> p_fmode fl2"
    and "c = CHR ''b'' \<or> c = CHR ''B'' \<longrightarrow> p_bytesmode fl2"
  shows "loop_read_all fl (c # p') fl'"
  using assms by (auto simp: loop_read_all_def has_letter_def)

lemma prefix_loop_letters:
  "\<forall>c \<in> set p. Py_ISALPHA c \<Longrightarrow> \<not> Py_ISALPHA q \<Longrightarrow> prefix_loop fl (p @ q # rest) = (fl', s) \<Longrightarrow>
   (s = q # rest \<and> loop_read_all fl p fl') \<or> (\<exists>c s'. s = c # s' \<and> Py_ISALPHA c)"
proof (induction "length p" arbitrary: p fl rule: less_induct)
  case less
  show ?case
  proof (cases p)
    case Nil
    have "\<not> (q = CHR ''b'' \<or> q = CHR ''B'' \<or> q = CHR ''u'' \<or> q = CHR ''U'' \<or> q = CHR ''r'' \<or> q = CHR ''R'' \<or>
       q = CHR ''f'' \<or> q = CHR ''F'' \<or> q = CHR ''c'' \<or> q = CHR ''C'')"
      using less.prems(2) prefix_letter_alpha [of q] by blast
    then have "prefix_loop fl (q # rest) = (fl, q # rest)"
      by (rule prefix_loop_other)
    with less.prems(3) Nil show ?thesis
      by (simp add: loop_read_all_def has_letter_def)
  next
    case (Cons c p')
    from less.prems(1) Cons have alpha: "Py_ISALPHA c" and alpha': "\<forall>c \<in> set p'. Py_ISALPHA c"
      by auto
    have run: "prefix_loop fl (c # p' @ q # rest) = (fl', s)"
      using less.prems(3) Cons by simp
    have IH: "(s = q # rest \<and> loop_read_all fl2 p2 fl') \<or> (\<exists>c s'. s = c # s' \<and> Py_ISALPHA c)"
      if "prefix_loop fl2 (p2 @ q # rest) = (fl', s)" and "length p2 \<le> length p'" and "set p2 \<subseteq> set p'"
      for fl2 p2
    proof -
      from that(2) Cons have "length p2 < length p" by simp
      moreover from that(3) alpha' have "\<forall>c \<in> set p2. Py_ISALPHA c" by blast
      ultimately show ?thesis
        using less.prems(2) that(1) by (rule less.hyps)
    qed
    show ?thesis
    proof (cases "\<not> p_bytesmode fl \<or> \<not> p_rawmode fl \<or> \<not> p_remode fl \<or> \<not> p_cmode fl")
      case False
      then have "prefix_loop fl (c # p' @ q # rest) = (fl, c # p' @ q # rest)"
        by (rule prefix_loop_stop)
      with run have "s = c # p' @ q # rest"
        by simp
      with alpha show ?thesis
        by blast
    next
      case guard: True
      consider (b) "c = CHR ''b'' \<or> c = CHR ''B''"
        | (u) "c = CHR ''u'' \<or> c = CHR ''U''"
        | (r) "c = CHR ''r'' \<or> c = CHR ''R''"
        | (f) "c = CHR ''f'' \<or> c = CHR ''F''"
        | (c) "c = CHR ''c'' \<or> c = CHR ''C''"
        | (other) "\<not> (c = CHR ''b'' \<or> c = CHR ''B'' \<or> c = CHR ''u'' \<or> c = CHR ''U'' \<or> c = CHR ''r'' \<or> c = CHR ''R'' \<or>
            c = CHR ''f'' \<or> c = CHR ''F'' \<or> c = CHR ''c'' \<or> c = CHR ''C'')"
        by blast
      then show ?thesis
      proof cases
        case b
        have "prefix_loop (fl\<lparr>p_bytesmode := True\<rparr>) (p' @ q # rest) = (fl', s)"
          using run prefix_loop_b [OF guard b, of "p' @ q # rest"] by simp
        then have "(s = q # rest \<and> loop_read_all (fl\<lparr>p_bytesmode := True\<rparr>) p' fl') \<or>
                   (\<exists>c s'. s = c # s' \<and> Py_ISALPHA c)"
          by (rule IH) simp_all
        then show ?thesis
          unfolding Cons using b by (auto intro: loop_read_all_step)
      next
        case u
        have "prefix_loop fl (p' @ q # rest) = (fl', s)"
          using run prefix_loop_u [OF guard u, of "p' @ q # rest"] by simp
        then have "(s = q # rest \<and> loop_read_all fl p' fl') \<or> (\<exists>c s'. s = c # s' \<and> Py_ISALPHA c)"
          by (rule IH) simp_all
        then show ?thesis
          unfolding Cons using u by (auto intro: loop_read_all_step)
      next
        case r
        show ?thesis
        proof (cases "\<exists>e p''. p' = e # p'' \<and> (e = CHR ''e'' \<or> e = CHR ''E'')")
          case True
          then obtain e p'' where p': "p' = e # p''" and e: "e = CHR ''e'' \<or> e = CHR ''E''"
            by auto
          have "prefix_loop (fl\<lparr>p_rawmode := True, p_remode := True\<rparr>) (p'' @ q # rest) = (fl', s)"
            using run prefix_loop_re [OF guard r e, of "p'' @ q # rest"] by (simp add: p')
          then have "(s = q # rest \<and> loop_read_all (fl\<lparr>p_rawmode := True, p_remode := True\<rparr>) p'' fl') \<or>
                (\<exists>c s'. s = c # s' \<and> Py_ISALPHA c)"
            by (rule IH) (auto simp: p')
          moreover have "loop_read_all fl (c # e # p'') fl'"
            if "loop_read_all (fl\<lparr>p_rawmode := True, p_remode := True\<rparr>) p'' fl'"
            using that r e by (auto simp: loop_read_all_def has_letter_def)
          ultimately show ?thesis
            unfolding Cons p' by blast
        next
          case False
          have qe: "q \<noteq> CHR ''e'' \<and> q \<noteq> CHR ''E''"
            using less.prems(2) by (auto simp: Py_ISALPHA_def)
          obtain x xs where split: "p' @ q # rest = x # xs" and x: "x \<noteq> CHR ''e'' \<and> x \<noteq> CHR ''E''"
            using False qe by (cases p') auto
          have "prefix_loop fl (c # x # xs) = prefix_loop (fl\<lparr>p_rawmode := True\<rparr>) (x # xs)"
            using guard r x by (rule prefix_loop_r)
          with run have "prefix_loop (fl\<lparr>p_rawmode := True\<rparr>) (p' @ q # rest) = (fl', s)"
            by (simp only: split)
          then have "(s = q # rest \<and> loop_read_all (fl\<lparr>p_rawmode := True\<rparr>) p' fl') \<or>
                     (\<exists>c s'. s = c # s' \<and> Py_ISALPHA c)"
            by (rule IH) simp_all
          then show ?thesis
            unfolding Cons using r by (auto intro: loop_read_all_step)
        qed
      next
        case f
        have "prefix_loop (fl\<lparr>p_fmode := True\<rparr>) (p' @ q # rest) = (fl', s)"
          using run prefix_loop_f [OF guard f, of "p' @ q # rest"] by simp
        then have "(s = q # rest \<and> loop_read_all (fl\<lparr>p_fmode := True\<rparr>) p' fl') \<or>
                   (\<exists>c s'. s = c # s' \<and> Py_ISALPHA c)"
          by (rule IH) simp_all
        then show ?thesis
          unfolding Cons using f by (auto intro: loop_read_all_step)
      next
        case c
        have "prefix_loop (fl\<lparr>p_rawmode := True, p_cmode := True\<rparr>) (p' @ q # rest) = (fl', s)"
          using run prefix_loop_c [OF guard c, of "p' @ q # rest"] by simp
        then have "(s = q # rest \<and> loop_read_all (fl\<lparr>p_rawmode := True, p_cmode := True\<rparr>) p' fl') \<or>
              (\<exists>c s'. s = c # s' \<and> Py_ISALPHA c)"
          by (rule IH) simp_all
        then show ?thesis
          unfolding Cons using c by (auto intro: loop_read_all_step)
      next
        case other
        then have "prefix_loop fl (c # p' @ q # rest) = (fl, c # p' @ q # rest)"
          by (rule prefix_loop_other)
        with run alpha show ?thesis
          by auto
      qed
    qed
  qed
qed

lemma prefix_loop_reads_all:
  "set p \<subseteq> {CHR ''b'', CHR ''B'', CHR ''u'', CHR ''U'', CHR ''r'', CHR ''R'', CHR ''f'', CHR ''F'',
            CHR ''c'', CHR ''C''} \<Longrightarrow> \<not> p_remode fl \<Longrightarrow> \<not> Py_ISALPHA q \<Longrightarrow>
   \<exists>fl'. prefix_loop fl (p @ q # rest) = (fl', q # rest)"
proof (induction p arbitrary: fl)
  case Nil
  have "\<not> (q = CHR ''b'' \<or> q = CHR ''B'' \<or> q = CHR ''u'' \<or> q = CHR ''U'' \<or> q = CHR ''r'' \<or> q = CHR ''R'' \<or>
     q = CHR ''f'' \<or> q = CHR ''F'' \<or> q = CHR ''c'' \<or> q = CHR ''C'')"
    using Nil.prems(3) prefix_letter_alpha [of q] by blast
  then have "prefix_loop fl (q # rest) = (fl, q # rest)"
    by (rule prefix_loop_other)
  then show ?case
    by simp
next
  case (Cons c p)
  from Cons.prems(2) have guard: "\<not> p_bytesmode fl \<or> \<not> p_rawmode fl \<or> \<not> p_remode fl \<or> \<not> p_cmode fl"
    by simp
  from Cons.prems(1) have sub: "set p \<subseteq> {CHR ''b'', CHR ''B'', CHR ''u'', CHR ''U'', CHR ''r'', CHR ''R'',
      CHR ''f'', CHR ''F'', CHR ''c'', CHR ''C''}"
    by simp
  have IH: "\<exists>fl'. prefix_loop fl2 (p @ q # rest) = (fl', q # rest)" if "\<not> p_remode fl2" for fl2
    using sub that Cons.prems(3) by (rule Cons.IH)
  from Cons.prems(1) consider (b) "c = CHR ''b'' \<or> c = CHR ''B''"
    | (u) "c = CHR ''u'' \<or> c = CHR ''U''"
    | (r) "c = CHR ''r'' \<or> c = CHR ''R''"
    | (f) "c = CHR ''f'' \<or> c = CHR ''F''"
    | (c) "c = CHR ''c'' \<or> c = CHR ''C''"
    by auto
  then show ?case
  proof cases
    case b
    show ?thesis
      using IH [of "fl\<lparr>p_bytesmode := True\<rparr>"] Cons.prems(2) prefix_loop_b [OF guard b, of "p @ q # rest"]
      by simp
  next
    case u
    show ?thesis
      using IH [of fl] Cons.prems(2) prefix_loop_u [OF guard u, of "p @ q # rest"]
      by simp
  next
    case r
    have qe: "q \<noteq> CHR ''e'' \<and> q \<noteq> CHR ''E''"
      using Cons.prems(3) by (auto simp: Py_ISALPHA_def)
    obtain x xs where split: "p @ q # rest = x # xs" and x: "x \<noteq> CHR ''e'' \<and> x \<noteq> CHR ''E''"
      using sub qe by (cases p) auto
    have "prefix_loop fl (c # x # xs) = prefix_loop (fl\<lparr>p_rawmode := True\<rparr>) (x # xs)"
      using guard r x by (rule prefix_loop_r)
    then have "prefix_loop fl (c # p @ q # rest) = prefix_loop (fl\<lparr>p_rawmode := True\<rparr>) (p @ q # rest)"
      by (simp only: split)
    then show ?thesis
      using IH [of "fl\<lparr>p_rawmode := True\<rparr>"] Cons.prems(2) by simp
  next
    case f
    show ?thesis
      using IH [of "fl\<lparr>p_fmode := True\<rparr>"] Cons.prems(2) prefix_loop_f [OF guard f, of "p @ q # rest"]
      by simp
  next
    case c
    show ?thesis
      using IH [of "fl\<lparr>p_rawmode := True, p_cmode := True\<rparr>"] Cons.prems(2)
        prefix_loop_c [OF guard c, of "p @ q # rest"]
      by simp
  qed
qed

text \<open>What \<^verbatim>\<open>parsestr\<close> returns after the prefix loop when the loop has read an \<open>f\<close> and
  a \<open>b\<close> and stands on the quote, and when it has stopped on a letter.\<close>

lemma parsestr_after_loop:
  assumes "Py_ISALPHA (byte_at (takeWhile (\<lambda>c. c \<noteq> CHR 0x00) t) 0)"
    and "prefix_loop no_prefix (takeWhile (\<lambda>c. c \<noteq> CHR 0x00) t) = (fl, c # s')"
    and "(p_fmode fl \<and> p_bytesmode fl) \<or> Py_ISALPHA c"
  shows "parsestr env t =
     Inl (if c = squote then SyntaxError ''characters cannot have a prefix''
          else if p_fmode fl \<and> feature_version env < 6 then
            SyntaxError ''Format strings are only supported in Python 3.6 and greater''
          else BadInternalCall)"
proof -
  have "Py_ISALPHA c \<Longrightarrow> c \<noteq> squote \<and> c \<noteq> dquote"
    by (auto simp: Py_ISALPHA_def squote_def dquote_def)
  with assms show ?thesis
    by (auto simp: parsestr_def parsestr_strip_def Let_def byte_at_def)
qed

text \<open>
  Claim C6, as amended. The C string of the token is a prefix \<open>p\<close> of letters that
  holds an \<open>f\<close> and a \<open>b\<close> (in either case), then a quote \<open>q\<close>, then the rest. Then
  \<^verbatim>\<open>parsestr\<close> fails, with one of three errors: the syntax error "characters cannot
  have a prefix", the syntax error about format strings, or
  \<^verbatim>\<open>PyErr_BadInternalCall()\<close>, which is not a syntax error. With a double quote at
  feature version 6 or above it is always the internal error. When the prefix is made
  of the letters \<open>b\<close>, \<open>u\<close>, \<open>r\<close>, \<open>f\<close>, \<open>c\<close> only, which the loop reads to the quote,
  the error is the one for the prefix of a character when the quote is a single quote,
  else the one for format strings when the feature version is below 6, and else the
  internal error. (The loop stops before the quote on any other letter, and on the
  letter that follows \<open>b\<close>, \<open>re\<close> and \<open>c\<close> together.)
\<close>

theorem parsestr_f_with_b_fails:
  assumes "takeWhile (\<lambda>c. c \<noteq> CHR 0x00) t = p @ q # rest"
    and "\<forall>c \<in> set p. Py_ISALPHA c"
    and "q = squote \<or> q = dquote"
    and "CHR ''f'' \<in> set p \<or> CHR ''F'' \<in> set p"
    and "CHR ''b'' \<in> set p \<or> CHR ''B'' \<in> set p"
  shows "(parsestr env t = Inl BadInternalCall \<or>
          parsestr env t = Inl (SyntaxError ''characters cannot have a prefix'') \<or>
          parsestr env t =
            Inl (SyntaxError ''Format strings are only supported in Python 3.6 and greater'')) \<and>
         (q = dquote \<and> 6 \<le> feature_version env \<longrightarrow> parsestr env t = Inl BadInternalCall) \<and>
         (set p \<subseteq> {CHR ''b'', CHR ''B'', CHR ''u'', CHR ''U'', CHR ''r'', CHR ''R'', CHR ''f'',
                    CHR ''F'', CHR ''c'', CHR ''C''} \<longrightarrow>
            parsestr env t =
              Inl (if q = squote then SyntaxError ''characters cannot have a prefix''
                   else if feature_version env < 6 then
                     SyntaxError ''Format strings are only supported in Python 3.6 and greater''
                   else BadInternalCall))"
proof -
  let ?s = "takeWhile (\<lambda>c. c \<noteq> CHR 0x00) t"
  have q: "\<not> Py_ISALPHA q" and qd: "q = dquote \<Longrightarrow> q \<noteq> squote" for q'
    using assms(3) by (auto simp: Py_ISALPHA_def squote_def dquote_def)
  from assms(4) obtain c0 p0 where p: "p = c0 # p0"
    by (cases p) auto
  with assms(2) have alpha: "Py_ISALPHA (byte_at ?s 0)"
    by (simp add: assms(1) byte_at_def)
  obtain fl s where run: "prefix_loop no_prefix ?s = (fl, s)"
    by (cases "prefix_loop no_prefix ?s") auto
  then have run': "prefix_loop no_prefix (p @ q # rest) = (fl, s)"
    by (simp only: assms(1))
  have all: "p_fmode fl \<and> p_bytesmode fl" if "s = q # rest \<and> loop_read_all no_prefix p fl"
    using that assms(4,5) by (auto simp: loop_read_all_def has_letter_def)
  from prefix_loop_letters [OF assms(2) q run']
  consider (read) "s = q # rest" "p_fmode fl \<and> p_bytesmode fl"
    | (stopped) c s' where "s = c # s'" "Py_ISALPHA c"
    using all by blast
  then have res: "\<exists>c s'. s = c # s' \<and> ((p_fmode fl \<and> p_bytesmode fl) \<or> Py_ISALPHA c) \<and>
      (c = q \<or> Py_ISALPHA c) \<and>
      parsestr env t =
        Inl (if c = squote then SyntaxError ''characters cannot have a prefix''
          else if p_fmode fl \<and> feature_version env < 6 then
            SyntaxError ''Format strings are only supported in Python 3.6 and greater''
          else BadInternalCall)"
  proof cases
    case read
    with run have "prefix_loop no_prefix ?s = (fl, q # rest)" by simp
    from parsestr_after_loop [OF alpha this, of env] read show ?thesis
      by simp
  next
    case stopped
    with run have "prefix_loop no_prefix ?s = (fl, c # s')" by simp
    from parsestr_after_loop [OF alpha this, of env] stopped show ?thesis
      by simp
  qed
  then obtain c s' where s: "s = c # s'" and cq: "c = q \<or> Py_ISALPHA c"
    and fb: "(p_fmode fl \<and> p_bytesmode fl) \<or> Py_ISALPHA c"
    and val: "parsestr env t =
        Inl (if c = squote then SyntaxError ''characters cannot have a prefix''
          else if p_fmode fl \<and> feature_version env < 6 then
            SyntaxError ''Format strings are only supported in Python 3.6 and greater''
          else BadInternalCall)"
    by blast
  have c1: "parsestr env t = Inl BadInternalCall \<or>
          parsestr env t = Inl (SyntaxError ''characters cannot have a prefix'') \<or>
          parsestr env t =
            Inl (SyntaxError ''Format strings are only supported in Python 3.6 and greater'')"
    using val by (simp split: if_splits)
  have ns: "c \<noteq> squote" if "q = dquote"
    using cq that by (auto simp: Py_ISALPHA_def squote_def dquote_def)
  have c2: "parsestr env t = Inl BadInternalCall" if "q = dquote \<and> 6 \<le> feature_version env"
    using val ns that by simp
  have c3: "parsestr env t =
              Inl (if q = squote then SyntaxError ''characters cannot have a prefix''
                   else if feature_version env < 6 then
                     SyntaxError ''Format strings are only supported in Python 3.6 and greater''
                   else BadInternalCall)"
    if sub: "set p \<subseteq> {CHR ''b'', CHR ''B'', CHR ''u'', CHR ''U'', CHR ''r'', CHR ''R'', CHR ''f'',
                    CHR ''F'', CHR ''c'', CHR ''C''}"
  proof -
    have "\<not> p_remode no_prefix"
      by (simp add: no_prefix_def)
    with sub obtain fl1 where "prefix_loop no_prefix (p @ q # rest) = (fl1, q # rest)"
      using prefix_loop_reads_all [of p no_prefix q rest] q by blast
    with run' s have cq': "c = q" and "fl1 = fl"
      by simp_all
    with fb q have "p_fmode fl"
      by blast
    with val cq' show ?thesis
      by simp
  qed
  from c1 c2 c3 show ?thesis
    by blast
qed

theorem parsestr_f_with_b_fails_witness:
  "parsestr example_env (''bF'' @ [dquote] @ ''x'' @ [dquote]) = Inl BadInternalCall \<and>
   parsestr example_env (''Bf'' @ [squote] @ ''x'' @ [squote]) =
     Inl (SyntaxError ''characters cannot have a prefix'') \<and>
   parsestr (example_env\<lparr>feature_version := 5\<rparr>) (''rbf'' @ [dquote] @ ''x'' @ [dquote]) =
     Inl (SyntaxError ''Format strings are only supported in Python 3.6 and greater'') \<and>
   parsestr example_env (''brecf'' @ [dquote] @ ''x'' @ [dquote]) = Inl BadInternalCall \<and>
   parsestr (example_env\<lparr>feature_version := 5\<rparr>) (''brecf'' @ [squote] @ ''x'' @ [squote]) \<in>
     {Inl BadInternalCall, Inl (SyntaxError ''characters cannot have a prefix''),
      Inl (SyntaxError ''Format strings are only supported in Python 3.6 and greater'')}"
  using parsestr_f_with_b_fails [of "''bF'' @ [dquote] @ ''x'' @ [dquote]" "''bF''" dquote
      "''x'' @ [dquote]" example_env]
    parsestr_f_with_b_fails [of "''Bf'' @ [squote] @ ''x'' @ [squote]" "''Bf''" squote
      "''x'' @ [squote]" example_env]
    parsestr_f_with_b_fails [of "''rbf'' @ [dquote] @ ''x'' @ [dquote]" "''rbf''" dquote
      "''x'' @ [dquote]" "example_env\<lparr>feature_version := 5\<rparr>"]
    parsestr_f_with_b_fails [of "''brecf'' @ [dquote] @ ''x'' @ [dquote]" "''brecf''" dquote
      "''x'' @ [dquote]" example_env]
    parsestr_f_with_b_fails [of "''brecf'' @ [squote] @ ''x'' @ [squote]" "''brecf''" squote
      "''x'' @ [squote]" "example_env\<lparr>feature_version := 5\<rparr>"]
  by (simp add: Py_ISALPHA_def squote_def dquote_def example_env_simps)

text \<open>The claim as written fails for the token \<^verbatim>\<open>fb"x"\<close> at feature version 8: the
  error is the internal one.\<close>

theorem parsestr_f_with_b_counterexample:
  "parsestr example_env (''fb'' @ [dquote] @ ''x'' @ [dquote]) = Inl BadInternalCall"
  by (simp add: parsestr_def parsestr_strip_def no_prefix_def Py_ISALPHA_def eval_simps Let_def
      prefix_loop.simps)

section \<open>The overflow check of the escape decoder\<close>

lemma decode_unicode_overflow:
  "SIZE_MAX env div 6 < length s \<Longrightarrow> decode_unicode_with_escapes env s = Inl NullWithoutException"
  by (simp add: decode_unicode_with_escapes_def)

text \<open>
  Claim C7. An input longer than \<^verbatim>\<open>SIZE_MAX / 6\<close> is not decoded, but the failure is a
  bare \<^verbatim>\<open>return NULL\<close>: no out-of-memory error, and no exception at all, is set. On
  the 32-bit example platform an input of 715827883 bytes is the shortest such input.
\<close>

theorem decode_overflow_returns_null:
  "decode_unicode_with_escapes example_env (replicate 715827883 (CHR ''a'')) = Inl NullWithoutException"
proof -
  have "SIZE_MAX example_env = 4294967295"
    by (simp add: example_env_def)
  then have "SIZE_MAX example_env div 6 < length (replicate 715827883 (CHR ''a''))"
    by (simp only: length_replicate)
  then show ?thesis
    by (simp only: decode_unicode_with_escapes_def if_True)
qed

section \<open>Bodies without an embedded expression\<close>




lemma byte_at_append_right: "byte_at (pre @ xs) (length pre + k) = byte_at xs k"
  by (simp add: byte_at_def nth_append)


















section \<open>Strings without a backslash\<close>

































end
